theory Spec2Isabelle
  imports Complex_Main "HOL-Library.AList" "HOL-Library.Sublist"
begin

section \<open>Python values, exceptions and dictionaries\<close>

text \<open>
  The connector (\<^verbatim>\<open>sharepoint.py\<close>) handles dynamically typed values: the property
  dictionaries of SDK objects and the \<^verbatim>\<open>additional_metadata\<close> of a record. They are
  modelled by a datatype of Python values. \<open>PObj b\<close> is an opaque object of the SDK
  (or any other value \<^verbatim>\<open>json\<close> has no encoding for) whose truth value is \<open>b\<close>;
  \<open>KOther\<close> is a hashable dictionary key that is neither a string, a number, a
  boolean nor \<^verbatim>\<open>None\<close> (a tuple, say). A datatype has no cyclic value, so the list
  that contains itself (\<^verbatim>\<open>l = []; l.append(l)\<close>) is a value of its own, \<open>PCyclic\<close>.
\<close>

datatype pykey = KStr string | KInt int | KFloat real | KBool bool | KNone | KOther

datatype pyval =
    PNone
  | PBool bool
  | PInt int
  | PFloat real
  | PStr string
  | PBytes string
  | PList "pyval list"
  | PDict "(pykey \<times> pyval) list"
  | PObj bool
  | PCyclic

text \<open>
  Exceptions are values. \<open>JSONDecodeError\<close> is the exception of \<^verbatim>\<open>json.loads\<close> and
  \<open>UnicodeEncodeError\<close> that of writing text the encoding of the file cannot hold; both
  are subclasses of \<^verbatim>\<open>ValueError\<close>. \<open>OSError\<close> is the failure of an operation on the
  local file system. \<open>SdkError\<close> stands for whatever a call into the SharePoint or
  Graph client raises.
\<close>

datatype error =
    IndexError
  | TypeError
  | AttributeError
  | ValueError string
  | JSONDecodeError
  | UnicodeEncodeError
  | RecursionError
  | OSError string
  | SdkError string

fun is_ValueError :: "error \<Rightarrow> bool" where
  "is_ValueError (ValueError m) = True"
| "is_ValueError JSONDecodeError = True"
| "is_ValueError UnicodeEncodeError = True"
| "is_ValueError e = False"

definition bind_err :: "error + 'a \<Rightarrow> ('a \<Rightarrow> error + 'b) \<Rightarrow> error + 'b" where
  "bind_err m f = (case m of Inl e \<Rightarrow> Inl e | Inr x \<Rightarrow> f x)"

text \<open>The truth value of a Python value, as \<^verbatim>\<open>if v\<close> and \<^verbatim>\<open>not v\<close> take it.\<close>

fun truthy :: "pyval \<Rightarrow> bool" where
  "truthy PNone = False"
| "truthy (PBool b) = b"
| "truthy (PInt i) = (i \<noteq> 0)"
| "truthy (PFloat x) = (x \<noteq> 0)"
| "truthy (PStr s) = (s \<noteq> [])"
| "truthy (PBytes s) = (s \<noteq> [])"
| "truthy (PList xs) = (xs \<noteq> [])"
| "truthy (PDict kvs) = (kvs \<noteq> [])"
| "truthy (PObj b) = b"
| "truthy PCyclic = True"

text \<open>
  A dictionary with string keys is an association list in insertion order; a Python
  dictionary never holds a key twice (\<open>distinct (map fst d)\<close>). \<^verbatim>\<open>d.get(k)\<close> is
  \<open>dict_get\<close> (\<open>None\<close> when the key is missing), \<^verbatim>\<open>d[k] = v\<close> is \<open>dict_set\<close>.
\<close>

type_synonym pydict = "(string \<times> pyval) list"

definition dict_get :: "pydict \<Rightarrow> string \<Rightarrow> pyval option" where
  "dict_get d k = map_of d k"

definition dict_set :: "pydict \<Rightarrow> string \<Rightarrow> pyval \<Rightarrow> pydict" where
  "dict_set d k v = AList.update k v d"

text \<open>\<^verbatim>\<open>d.get(k)\<close> as a Python value: a missing key reads as \<^verbatim>\<open>None\<close>.\<close>

definition get_or_none :: "pydict \<Rightarrow> string \<Rightarrow> pyval" where
  "get_or_none d k = (case dict_get d k of None \<Rightarrow> PNone | Some v \<Rightarrow> v)"

section \<open>JSON encoding\<close>

text \<open>
  \<^verbatim>\<open>json.dumps(v)\<close> with the default encoder walks the value in order and raises at
  the first thing it cannot encode: \<^verbatim>\<open>TypeError\<close> on a value it has no encoding for
  (bytes, arbitrary objects) and on a dictionary key that is not a string, a number, a
  boolean or \<^verbatim>\<open>None\<close>; \<^verbatim>\<open>ValueError\<close> on a container that contains itself;
  \<^verbatim>\<open>RecursionError\<close> when the containers are nested deeper than the interpreter's
  recursion limit lets it descend. \<open>json_encode d v\<close> is the outcome when the encoder
  can still enter \<open>d\<close> nested containers. The caller throws the text away, so only the
  outcome is modelled.
\<close>

fun json_key :: "pykey \<Rightarrow> bool" where
  "json_key KOther = False"
| "json_key k = True"

fun first_error :: "(error + unit) list \<Rightarrow> error + unit" where
  "first_error [] = Inr ()"
| "first_error (Inl e # rs) = Inl e"
| "first_error (Inr u # rs) = first_error rs"

fun json_encode :: "nat \<Rightarrow> pyval \<Rightarrow> error + unit" where
  "json_encode d PNone = Inr ()"
| "json_encode d (PBool b) = Inr ()"
| "json_encode d (PInt i) = Inr ()"
| "json_encode d (PFloat x) = Inr ()"
| "json_encode d (PStr s) = Inr ()"
| "json_encode d (PBytes s) = Inl TypeError"
| "json_encode d (PList xs) =
     (if d = 0 then Inl RecursionError else first_error (map (json_encode (d - 1)) xs))"
| "json_encode d (PDict kvs) =
     (if d = 0 then Inl RecursionError
      else first_error
             (map (\<lambda>kv. if json_key (fst kv) then json_encode (d - 1) (snd kv)
                        else Inl TypeError) kvs))"
| "json_encode d (PObj b) = Inl TypeError"
| "json_encode d PCyclic = Inl (ValueError ''Circular reference detected'')"

section \<open>String operations\<close>

text \<open>
  \<^verbatim>\<open>s.replace(old, new)\<close>: every occurrence of \<open>old\<close>, found from the left and not
  overlapping, is replaced. With an empty \<open>old\<close>, \<open>new\<close> is put before every
  character and at the end.
\<close>

fun replace_ne :: "string \<Rightarrow> string \<Rightarrow> string \<Rightarrow> string" where
  "replace_ne old new [] = []"
| "replace_ne old new (c # cs) =
     (if prefix old (c # cs) then new @ replace_ne old new (drop (length old - 1) cs)
      else c # replace_ne old new cs)"

definition py_replace :: "string \<Rightarrow> string \<Rightarrow> string \<Rightarrow> string" where
  "py_replace s old new =
     (if old = [] then new @ concat (map (\<lambda>c. c # new) s) else replace_ne old new s)"

text \<open>\<^verbatim>\<open>sub in s\<close> on strings.\<close>

fun contains :: "string \<Rightarrow> string \<Rightarrow> bool" where
  "contains sub [] = (sub = [])"
| "contains sub (c # cs) = (prefix sub (c # cs) \<or> contains sub cs)"

text \<open>
  The loop of \<^verbatim>\<open>file_to_file_data\<close>,
  \<^verbatim>\<open>while rel_path[0] == "/": rel_path = rel_path[1:]\<close>:
  reading index 0 of the empty string raises \<^verbatim>\<open>IndexError\<close>.
\<close>

fun strip_leading_sep :: "string \<Rightarrow> error + string" where
  "strip_leading_sep [] = Inl IndexError"
| "strip_leading_sep (c # cs) =
     (if c = CHR ''/'' then strip_leading_sep cs else Inr (c # cs))"

text \<open>\<^verbatim>\<open>str(i)\<close> of an integer: its decimal digits, after the sign.\<close>

function str_nat :: "nat \<Rightarrow> string" where
  "str_nat n =
     (if n < 10 then [''0123456789'' ! n]
      else str_nat (n div 10) @ [''0123456789'' ! (n mod 10)])"
  by pat_completeness auto
termination
  by (relation "measure id") auto

definition str_int :: "int \<Rightarrow> string" where
  "str_int i = (if i < 0 then CHR ''-'' # str_nat (nat (- i)) else str_nat (nat i))"

section \<open>Collaborators outside the module\<close>

text \<open>
  What the module calls and does not define is a parameter of the model:
  \<^verbatim>\<open>parse_datetime\<close> of the package's utilities (it may raise on a malformed date),
  the text of a timestamp (\<^verbatim>\<open>str(dt.timestamp())\<close>), the wall clock
  (\<^verbatim>\<open>str(time())\<close>, one reading for the run), \<^verbatim>\<open>urllib.parse.quote\<close>, the text of
  a value that is neither a string nor an integer inside a format string, the number of
  nested containers \<^verbatim>\<open>json.dumps\<close> can enter before the recursion limit of the
  interpreter is reached, the JSON decoder behind \<^verbatim>\<open>json.loads\<close>, and the HTML
  parser and printer of \<^verbatim>\<open>lxml\<close>.
\<close>

type_synonym datetime = int

record env =
  parse_datetime :: "pyval \<Rightarrow> error + datetime"
  timestamp_str :: "datetime \<Rightarrow> string"
  time_str :: string
  quote :: "string \<Rightarrow> string"
  str_of :: "pyval \<Rightarrow> string"
  recursion_limit :: nat
  json_decode :: "string \<Rightarrow> error + pyval"
  html_fromstring :: "string \<Rightarrow> error + string"
  etree_tostring :: "string \<Rightarrow> error + string"

definition json_dumps :: "env \<Rightarrow> pyval \<Rightarrow> error + unit" where
  "json_dumps env v = json_encode (recursion_limit env) v"

definition json_serializable :: "env \<Rightarrow> pyval \<Rightarrow> bool" where
  "json_serializable env v \<longleftrightarrow> json_dumps env v = Inr ()"

text \<open>\<^verbatim>\<open>f"{v}"\<close>: a string is its own text, an integer is printed in decimal.\<close>

definition py_str :: "env \<Rightarrow> pyval \<Rightarrow> string" where
  "py_str env v = (case v of PStr s \<Rightarrow> s | PInt i \<Rightarrow> str_int i | _ \<Rightarrow> str_of env v)"

section \<open>The objects of the SharePoint client\<close>

text \<open>
  A file, a folder and a site page as the SDK presents them once
  \<^verbatim>\<open>expand(...).get().execute_query()\<close> has filled them in. A folder holds its files
  and its child folders: the tree is finite and has no cycle. The queries on the
  members of a fetched collection are taken to succeed; a query that resolves a handle
  (the root folder, the page list, the drive items) has an outcome of type
  \<open>error + _\<close>.
\<close>

record sp_file =
  file_properties :: pydict
  serverRelativeUrl :: string
  unique_id :: string
  name :: string
  major_version :: int
  minor_version :: int
  time_last_modified :: pyval
  time_created :: pyval

datatype folder =
  Folder (folder_name: string) (folder_url: string) (files: "sp_file list")
    (folders: "folder list")

record site_page =
  page_properties :: pydict
  first_published :: pyval
  file_name :: string

record client_context =
  base_url :: string
  web_url :: "error + string"
  folder_by_path :: "string \<Rightarrow> error + folder"
  default_library_root :: "error + folder"
  site_pages :: "error + site_page list"
  download :: "pyval \<Rightarrow> error + string"

section \<open>Configuration and the canonical record\<close>

record SharepointPermissionsConfig =
  permissions_application_id :: "string option"
  permissions_tenant :: "string option"
  permissions_client_cred :: "string option"
  authority_url :: "string option"

record SharepointConnectionConfig =
  client_id :: string
  site :: string
  client_cred :: string
  permissions_config :: "SharepointPermissionsConfig option"

record SharepointIndexerConfig =
  path :: "string option"
  recursive :: bool
  omit_files :: bool
  omit_pages :: bool
  omit_lists :: bool

record SharepointIndexer =
  connection_config :: SharepointConnectionConfig
  index_config :: SharepointIndexerConfig

record SourceIdentifiers =
  filename :: string
  fullpath :: string
  rel_path :: string

record FileDataSourceMetadata =
  url :: pyval
  version :: pyval
  date_modified :: "string option"
  date_created :: "string option"
  date_processed :: string
  record_locator :: pydict
  permissions_data :: "pydict list option"

record FileData =
  file_identifier :: pyval
  connector_type :: string
  source_identifiers :: SourceIdentifiers
  metadata :: FileDataSourceMetadata
  additional_metadata :: pydict

definition CONNECTOR_TYPE :: string where
  "CONNECTOR_TYPE = ''sharepoint''"

datatype SharepointContentType = DOCUMENT | SITEPAGE | LIST

fun content_type_value :: "SharepointContentType \<Rightarrow> string" where
  "content_type_value DOCUMENT = ''document''"
| "content_type_value SITEPAGE = ''site_page''"
| "content_type_value LIST = ''list''"

section \<open>The indexer: metadata mapping\<close>

text \<open>
  \<^verbatim>\<open>get_properties\<close>: the comprehension keeps the items with a truthy value; the loop
  keeps, of those, the ones \<^verbatim>\<open>json.dumps\<close> accepts, and passes over a
  \<^verbatim>\<open>TypeError\<close>. Any other exception of \<^verbatim>\<open>json.dumps\<close> (\<^verbatim>\<open>ValueError\<close>,
  \<^verbatim>\<open>RecursionError\<close>) is not caught and leaves the function.
\<close>

fun filter_properties :: "env \<Rightarrow> pydict \<Rightarrow> pydict \<Rightarrow> error + pydict" where
  "filter_properties env [] filtered_properties = Inr filtered_properties"
| "filter_properties env ((k, v) # kvs) filtered_properties =
     (case json_dumps env v of
        Inr u \<Rightarrow> filter_properties env kvs (dict_set filtered_properties k v)
      | Inl e \<Rightarrow>
          if e = TypeError then filter_properties env kvs filtered_properties else Inl e)"

definition get_properties :: "env \<Rightarrow> pydict \<Rightarrow> error + pydict" where
  "get_properties env raw_properties =
     filter_properties env (filter (\<lambda>kv. truthy (snd kv)) raw_properties) []"

text \<open>\<^verbatim>\<open>parse_datetime(v) if v else None\<close>.\<close>

definition parse_if :: "env \<Rightarrow> bool \<Rightarrow> pyval \<Rightarrow> error + datetime option" where
  "parse_if env c v =
     (if c then bind_err (parse_datetime env v) (\<lambda>d. Inr (Some d)) else Inr None)"

text \<open>
  \<^verbatim>\<open>fullpath.replace(self.index_config.path, "")\<close>: with no path configured the
  argument is \<^verbatim>\<open>None\<close> and \<^verbatim>\<open>str.replace\<close> raises \<^verbatim>\<open>TypeError\<close>.
\<close>

definition remove_path :: "string \<Rightarrow> string option \<Rightarrow> error + string" where
  "remove_path s p =
     (case p of None \<Rightarrow> Inl TypeError | Some old \<Rightarrow> Inr (py_replace s old []))"

definition file_to_file_data ::
  "env \<Rightarrow> SharepointIndexer \<Rightarrow> client_context \<Rightarrow> sp_file \<Rightarrow> error + FileData" where
  "file_to_file_data env self client file =
     (let absolute_url = base_url client @ quote env (serverRelativeUrl file) in
      bind_err (parse_if env (truthy (time_last_modified file)) (time_last_modified file))
        (\<lambda>date_modified_dt.
      bind_err (parse_if env (truthy (time_created file)) (time_created file))
        (\<lambda>date_created_at.
      bind_err (get_properties env (file_properties file)) (\<lambda>props.
      let additional_metadata =
            dict_set props ''sharepoint_content_type'' (PStr (content_type_value DOCUMENT));
          fullpath = serverRelativeUrl file
      in
      bind_err (remove_path fullpath (path (index_config self))) (\<lambda>replaced.
      bind_err (strip_leading_sep replaced) (\<lambda>rel_path.
      Inr \<lparr>file_identifier = PStr (unique_id file),
           connector_type = CONNECTOR_TYPE,
           source_identifiers =
             \<lparr>filename = name file, fullpath = fullpath, rel_path = rel_path\<rparr>,
           metadata =
             \<lparr>url = PStr absolute_url,
              version =
                PStr (py_str env (PInt (major_version file)) @ ''.'' @
                      py_str env (PInt (minor_version file))),
              date_modified = map_option (timestamp_str env) date_modified_dt,
              date_created = map_option (timestamp_str env) date_created_at,
              date_processed = time_str env,
              record_locator =
                [(''server_path'', PStr (serverRelativeUrl file)),
                 (''site_url'', PStr (base_url client))],
              permissions_data = None\<rparr>,
           additional_metadata = additional_metadata\<rparr>))))))"

text \<open>
  \<^verbatim>\<open>site_page.get_property("Url", "")\<close> and the test \<^verbatim>\<open>file_path[0] != "/"\<close>: the
  property is a string on every page the service returns; a value of another type
  fails here or at \<^verbatim>\<open>replace\<close>, and the model does not tell those exceptions apart.
\<close>

definition page_url :: "site_page \<Rightarrow> error + string" where
  "page_url site_page =
     (case dict_get (page_properties site_page) ''Url'' of
        None \<Rightarrow> Inr []
      | Some (PStr s) \<Rightarrow> Inr s
      | Some v \<Rightarrow> Inl TypeError)"

definition server_path_of :: "string \<Rightarrow> error + string" where
  "server_path_of file_path =
     (case file_path of
        [] \<Rightarrow> Inl IndexError
      | c # cs \<Rightarrow> Inr (if c \<noteq> CHR ''/'' then file_path else cs))"

definition page_to_file_data ::
  "env \<Rightarrow> SharepointIndexer \<Rightarrow> site_page \<Rightarrow> error + FileData" where
  "page_to_file_data env self site_page =
     (let props = page_properties site_page;
          version = get_or_none props ''Version'';
          unique_id = get_or_none props ''UniqueId'';
          modified_date = get_or_none props ''Modified'';
          url = get_or_none props ''AbsoluteUrl''
      in
      bind_err (parse_if env (truthy modified_date) modified_date) (\<lambda>date_modified_dt.
      bind_err
        (parse_if env
           (truthy (first_published site_page) \<and>
            first_published site_page \<noteq> PStr ''0001-01-01T08:00:00Z'')
           (first_published site_page))
        (\<lambda>date_created_at.
      bind_err (page_url site_page) (\<lambda>file_path.
      bind_err (server_path_of file_path) (\<lambda>server_path.
      bind_err (get_properties env props) (\<lambda>filtered.
      let additional_metadata =
            dict_set filtered ''sharepoint_content_type'' (PStr (content_type_value SITEPAGE))
      in
      bind_err (remove_path file_path (path (index_config self))) (\<lambda>rel.
      Inr \<lparr>file_identifier = unique_id,
           connector_type = CONNECTOR_TYPE,
           source_identifiers =
             \<lparr>filename = file_name site_page, fullpath = file_path, rel_path = rel\<rparr>,
           metadata =
             \<lparr>url = url,
              version = version,
              date_modified = map_option (timestamp_str env) date_modified_dt,
              date_created = map_option (timestamp_str env) date_created_at,
              date_processed = time_str env,
              record_locator = [(''server_path'', PStr server_path)],
              permissions_data = None\<rparr>,
           additional_metadata = additional_metadata\<rparr>)))))))"

section \<open>The indexer: walking the folder tree and resolving the root\<close>

text \<open>
  \<^verbatim>\<open>list_files\<close>: without recursion, the files of the folder. With recursion, the files
  of the folder, then for each child folder in turn, unless \<^verbatim>\<open>"/Forms"\<close> occurs in its
  \<^verbatim>\<open>serverRelativeUrl\<close>, the files listed below it.
\<close>

fun list_files :: "folder \<Rightarrow> bool \<Rightarrow> sp_file list" where
  "list_files (Folder n u fs ds) recur =
     (if \<not> recur then fs
      else fs @ concat (map (\<lambda>f. if contains ''/Forms'' (folder_url f) then []
                                   else list_files f recur) ds))"

text \<open>
  \<^verbatim>\<open>get_root\<close>: \<^verbatim>\<open>if path := self.index_config.path\<close> takes the configured path when it
  is truthy, that is neither \<^verbatim>\<open>None\<close> nor the empty string. The folder of an explicit
  path is a handle: whether it exists shows at the first query on it. Otherwise the root
  folder of the default document library is fetched and its name is stored in the
  configuration. The indexer is returned with the handle, since the call may change it.
\<close>

definition default_root ::
  "SharepointIndexer \<Rightarrow> client_context \<Rightarrow> error + ((error + folder) \<times> SharepointIndexer)" where
  "default_root self client =
     bind_err (default_library_root client) (\<lambda>root_folder.
       Inr (Inr root_folder,
            self\<lparr>index_config :=
              (index_config self)\<lparr>path := Some (folder_name root_folder)\<rparr>\<rparr>))"

definition get_root ::
  "SharepointIndexer \<Rightarrow> client_context \<Rightarrow> error + ((error + folder) \<times> SharepointIndexer)" where
  "get_root self client =
     (case path (index_config self) of
        None \<Rightarrow> default_root self client
      | Some p \<Rightarrow>
          if p \<noteq> [] then Inr (folder_by_path client p, self)
          else default_root self client)"

section \<open>The indexer: permission enrichment\<close>

text \<open>
  The Graph side: a permission with its sub-objects already turned to JSON values
  (\<^verbatim>\<open>to_json()\<close>), a drive item with the outcome of the query for its permissions, a
  drive with the outcome of the query for the children of its root, a site with the
  outcome of the query for its drives.
\<close>

record Permission =
  permission_id :: pyval
  roles :: "pyval list"
  share_id :: pyval
  has_password :: pyval
  link :: pyval
  granted_to_identities :: pyval
  granted_to :: pyval
  granted_to_v2 :: pyval
  granted_to_identities_v2 :: pyval
  invitation :: pyval

record DriveItem =
  item_name :: string
  item_etag :: "string option"
  item_permissions :: "error + Permission list"

record Drive =
  root_children :: "error + DriveItem list"

record Site =
  drives :: "error + Drive list"

record GraphClient =
  site_by_url :: "string \<Rightarrow> error + Site"

text \<open>
  The services a connection configuration leads to: the outcome of \<^verbatim>\<open>get_client()\<close>
  and the Graph client that \<^verbatim>\<open>get_permissions_client()\<close> builds when a permissions
  configuration is present.
\<close>

record services =
  sharepoint :: "error + client_context"
  graph :: GraphClient

definition get_permissions_client ::
  "services \<Rightarrow> SharepointConnectionConfig \<Rightarrow> GraphClient option" where
  "get_permissions_client srv conn =
     (case permissions_config conn of None \<Rightarrow> None | Some pc \<Rightarrow> Some (graph srv))"

fun collect_items :: "Drive list \<Rightarrow> DriveItem list \<Rightarrow> error + DriveItem list" where
  "collect_items [] items = Inr items"
| "collect_items (drive # ds) items =
     bind_err (root_children drive) (\<lambda>children. collect_items ds (items @ children))"

definition get_permissions_items :: "Site \<Rightarrow> error + DriveItem list" where
  "get_permissions_items st = bind_err (drives st) (\<lambda>ds. collect_items ds [])"

definition map_permission :: "Permission \<Rightarrow> pydict" where
  "map_permission permission =
     [(''id'', permission_id permission),
      (''roles'', PList (roles permission)),
      (''share_id'', share_id permission),
      (''has_password'', has_password permission),
      (''link'', link permission),
      (''granted_to_identities'', granted_to_identities permission),
      (''granted_to'', granted_to permission),
      (''granted_to_v2'', granted_to_v2 permission),
      (''granted_to_identities_v2'', granted_to_identities_v2 permission),
      (''invitation'', invitation permission)]"

text \<open>
  \<^verbatim>\<open>x.etag == etag\<close>: the etag of a drive item is a string or \<^verbatim>\<open>None\<close>; it equals a
  value of the metadata only when both are the same string (or both \<^verbatim>\<open>None\<close>).
\<close>

definition etag_eq :: "string option \<Rightarrow> pyval \<Rightarrow> bool" where
  "etag_eq e v =
     (case e of
        None \<Rightarrow> v = PNone
      | Some s \<Rightarrow> v = PStr s)"

text \<open>The warning of the logger, by its arguments: the etag and the names of the items.\<close>

datatype log_entry = Warning pyval "string list"

text \<open>
  The body of the loop of \<^verbatim>\<open>enrich_permissions_on_files\<close> for one record: the record
  after the iteration, and what was logged.
\<close>

definition matching :: "pyval \<Rightarrow> DriveItem list \<Rightarrow> DriveItem list" where
  "matching etag existing_items = filter (\<lambda>x. etag_eq (item_etag x) etag) existing_items"

definition enrich_one ::
  "DriveItem list \<Rightarrow> FileData \<Rightarrow> error + (FileData \<times> log_entry list)" where
  "enrich_one existing_items file_data =
     (let etag = get_or_none (additional_metadata file_data) ''ETag'' in
      if \<not> truthy etag then Inr (file_data, [])
      else
        let matching_items = matching etag existing_items in
        if matching_items = [] then Inr (file_data, [])
        else if length matching_items > 1
        then Inr (file_data, [Warning etag (map item_name matching_items)])
        else
          bind_err (item_permissions (hd matching_items)) (\<lambda>permissions.
            Inr (file_data\<lparr>metadata :=
                   (metadata file_data)\<lparr>permissions_data :=
                      Some (map map_permission permissions)\<rparr>\<rparr>, [])))"

fun enrich_loop ::
  "DriveItem list \<Rightarrow> FileData list \<Rightarrow> error + (FileData list \<times> log_entry list)" where
  "enrich_loop existing_items [] = Inr ([], [])"
| "enrich_loop existing_items (file_data # rest) =
     bind_err (enrich_one existing_items file_data) (\<lambda>r.
     bind_err (enrich_loop existing_items rest) (\<lambda>rs.
       Inr (fst r # fst rs, snd r @ snd rs)))"

definition enrich_permissions_on_files ::
  "services \<Rightarrow> SharepointIndexer \<Rightarrow> FileData list \<Rightarrow> string \<Rightarrow>
   error + (FileData list \<times> log_entry list)" where
  "enrich_permissions_on_files srv self all_file_data site_url =
     (case get_permissions_client srv (connection_config self) of
        None \<Rightarrow> Inr (all_file_data, [])
      | Some permission_client \<Rightarrow>
          bind_err (site_by_url permission_client site_url) (\<lambda>site.
          bind_err (get_permissions_items site) (\<lambda>existing_items.
            enrich_loop existing_items all_file_data)))"

text \<open>
  The property \<^verbatim>\<open>process_permissions\<close>, a chain of \<^verbatim>\<open>and\<close>: reading the secret of a
  missing credential raises \<^verbatim>\<open>AttributeError\<close>.
\<close>

definition opt_truthy :: "string option \<Rightarrow> bool" where
  "opt_truthy p = (case p of None \<Rightarrow> False | Some s \<Rightarrow> s \<noteq> [])"

definition process_permissions :: "SharepointIndexer \<Rightarrow> error + bool" where
  "process_permissions self =
     (case permissions_config (connection_config self) of
        None \<Rightarrow> Inr False
      | Some pc \<Rightarrow>
          if \<not> opt_truthy (permissions_tenant pc) then Inr False
          else (case permissions_client_cred pc of
                  None \<Rightarrow> Inl AttributeError
                | Some cred \<Rightarrow>
                    if cred = [] then Inr False
                    else Inr (opt_truthy (permissions_application_id pc))))"

section \<open>The indexer: run\<close>

text \<open>
  \<^verbatim>\<open>run\<close> is a generator. Its outcome is the sequence of the records it has yielded,
  what it has logged, and the exception that ended it, if one did.
\<close>

record run_result =
  yielded :: "FileData list"
  logged :: "log_entry list"
  raised :: "error option"

fun map_err :: "('a \<Rightarrow> error + 'b) \<Rightarrow> 'a list \<Rightarrow> error + 'b list" where
  "map_err f [] = Inr []"
| "map_err f (x # xs) =
     bind_err (f x) (\<lambda>y. bind_err (map_err f xs) (\<lambda>ys. Inr (y # ys)))"

text \<open>
  The part of \<^verbatim>\<open>run\<close> before the first \<^verbatim>\<open>yield\<close> of a file record: listing, mapping
  every file, and the enrichment of the whole list.
\<close>

definition collect_file_data ::
  "services \<Rightarrow> env \<Rightarrow> SharepointIndexer \<Rightarrow> client_context \<Rightarrow> (error + folder) \<Rightarrow>
   error + (FileData list \<times> log_entry list)" where
  "collect_file_data srv env self client root_folder =
     bind_err root_folder (\<lambda>root.
     let files = list_files root (recursive (index_config self)) in
     bind_err (map_err (file_to_file_data env self client) files) (\<lambda>file_data.
     bind_err (process_permissions self) (\<lambda>pp.
       if pp
       then bind_err (web_url client) (\<lambda>site_url.
              enrich_permissions_on_files srv self file_data site_url)
       else Inr (file_data, []))))"

text \<open>
  The loop over the pages: each page is mapped, given its \<^verbatim>\<open>site_url\<close> in the record
  locator, and yielded in turn. An exception ends the sequence after the records
  yielded so far.
\<close>

definition with_site_url :: "client_context \<Rightarrow> FileData \<Rightarrow> FileData" where
  "with_site_url client file_data =
     file_data\<lparr>metadata :=
       (metadata file_data)\<lparr>record_locator :=
          dict_set (record_locator (metadata file_data)) ''site_url''
            (PStr (base_url client))\<rparr>\<rparr>"

fun yield_pages ::
  "env \<Rightarrow> SharepointIndexer \<Rightarrow> client_context \<Rightarrow> site_page list \<Rightarrow>
   FileData list \<times> error option" where
  "yield_pages env self client [] = ([], None)"
| "yield_pages env self client (page # pages) =
     (case page_to_file_data env self page of
        Inl e \<Rightarrow> ([], Some e)
      | Inr file_data \<Rightarrow>
          let r = yield_pages env self client pages
          in (with_site_url client file_data # fst r, snd r))"

definition run_pages ::
  "env \<Rightarrow> SharepointIndexer \<Rightarrow> client_context \<Rightarrow> FileData list \<times> error option" where
  "run_pages env self client =
     (if \<not> omit_pages (index_config self)
      then (case site_pages client of
              Inl e \<Rightarrow> ([], Some e)
            | Inr pages \<Rightarrow> yield_pages env self client pages)
      else ([], None))"

definition indexer_run :: "services \<Rightarrow> env \<Rightarrow> SharepointIndexer \<Rightarrow> run_result" where
  "indexer_run srv env self0 =
     (case sharepoint srv of
        Inl e \<Rightarrow> \<lparr>yielded = [], logged = [], raised = Some e\<rparr>
      | Inr client \<Rightarrow>
     (case get_root self0 client of
        Inl e \<Rightarrow> \<lparr>yielded = [], logged = [], raised = Some e\<rparr>
      | Inr (root_folder, self) \<Rightarrow>
          if \<not> omit_files (index_config self)
          then (case collect_file_data srv env self client root_folder of
                  Inl e \<Rightarrow> \<lparr>yielded = [], logged = [], raised = Some e\<rparr>
                | Inr (file_data, ws) \<Rightarrow>
                    let r = run_pages env self client in
                    \<lparr>yielded = file_data @ fst r, logged = ws, raised = snd r\<rparr>)
          else
            let r = run_pages env self client in
            \<lparr>yielded = fst r, logged = [], raised = snd r\<rparr>))"

section \<open>The downloader\<close>

text \<open>
  A path of \<^verbatim>\<open>pathlib\<close>: its anchor (drive and root) and its other parts. The name is
  the last part, and is empty when there is none; the suffix starts at the last dot of
  the name, unless that dot is the first or the last character.
\<close>

record Path =
  path_anchor :: string
  path_parts :: "string list"

definition path_name :: "Path \<Rightarrow> string" where
  "path_name p = (case rev (path_parts p) of [] \<Rightarrow> [] | n # ns \<Rightarrow> n)"

definition path_parent :: "Path \<Rightarrow> Path" where
  "path_parent p = p\<lparr>path_parts := butlast (path_parts p)\<rparr>"

text \<open>\<^verbatim>\<open>s.rfind(c)\<close>: the highest index of \<open>c\<close> in \<open>s\<close>, or \<open>-1\<close>.\<close>

fun rfind :: "string \<Rightarrow> char \<Rightarrow> int" where
  "rfind [] c = -1"
| "rfind (x # xs) c =
     (let i = rfind xs c in if 0 \<le> i then i + 1 else if x = c then 0 else -1)"

definition name_suffix :: "string \<Rightarrow> string" where
  "name_suffix nm =
     (let i = rfind nm CHR ''.'' in
      if 0 < i \<and> i < int (length nm) - 1 then drop (nat i) nm else [])"

definition path_suffix :: "Path \<Rightarrow> string" where
  "path_suffix p = name_suffix (path_name p)"

definition with_suffix :: "Path \<Rightarrow> string \<Rightarrow> error + Path" where
  "with_suffix p sfx =
     (if CHR ''/'' \<in> set sfx then Inl (ValueError ''Invalid suffix'')
      else if (sfx \<noteq> [] \<and> \<not> prefix ''.'' sfx) \<or> sfx = ''.''
      then Inl (ValueError ''Invalid suffix'')
      else
        let nm = path_name p in
        if nm = [] then Inl (ValueError ''has an empty name'')
        else
          let old_suffix = name_suffix nm;
              new_name =
                (if old_suffix = [] then nm @ sfx
                 else take (length nm - length old_suffix) nm @ sfx)
          in Inr (p\<lparr>path_parts := butlast (path_parts p) @ [new_name]\<rparr>))"

text \<open>
  The downloader with the two operations it inherits from the host's \<^verbatim>\<open>Downloader\<close>:
  the path the host computes for a record (\<^verbatim>\<open>super().get_download_path\<close>), a
  parameter, and the response.
\<close>

record SharepointDownloader =
  downloader_connection_config :: SharepointConnectionConfig
  host_download_path :: "FileData \<Rightarrow> Path"

text \<open>
  Modelled from the spec: \<^verbatim>\<open>generate_download_response\<close> of the host's
  \<^verbatim>\<open>Downloader\<close> is not part of the module; "both branches return a uniform download
  completed result referencing the record and the local path".
\<close>

record DownloadResponse =
  response_file_data :: FileData
  response_path :: Path

definition generate_download_response :: "FileData \<Rightarrow> Path \<Rightarrow> DownloadResponse" where
  "generate_download_response file_data download_path =
     \<lparr>response_file_data = file_data, response_path = download_path\<rparr>"

definition get_download_path :: "SharepointDownloader \<Rightarrow> FileData \<Rightarrow> error + Path" where
  "get_download_path self file_data =
     (let download_path = host_download_path self file_data;
          content_type = dict_get (additional_metadata file_data) ''sharepoint_content_type''
      in
      if content_type = Some (PStr (content_type_value SITEPAGE))
      then with_suffix download_path ''.html''
      else Inr download_path)"

text \<open>
  The local file system: whether creating a directory (\<^verbatim>\<open>mkdir(parents=True,
  exist_ok=True)\<close>), opening a file for writing, and writing a content to an opened file
  succeed (\<open>None\<close>) or raise. What an operation has done to the file system is the list
  of the steps that succeeded, in order.
\<close>

record file_system =
  fs_mkdir :: "Path \<Rightarrow> error option"
  fs_open :: "Path \<Rightarrow> error option"
  fs_write :: "Path \<Rightarrow> string \<Rightarrow> error option"

datatype io_event = Mkdir Path | OpenWrite Path | WriteContent Path string

text \<open>
  \<^verbatim>\<open>download_path.parent.mkdir(...)\<close>, then \<^verbatim>\<open>with download_path.open(...) as f\<close>,
  then the body, which produces the content (and may raise) and writes it.
\<close>

definition write_file ::
  "file_system \<Rightarrow> Path \<Rightarrow> error + string \<Rightarrow> error option \<times> io_event list" where
  "write_file fs download_path body =
     (case fs_mkdir fs (path_parent download_path) of
        Some e \<Rightarrow> (Some e, [])
      | None \<Rightarrow>
     (case fs_open fs download_path of
        Some e \<Rightarrow> (Some e, [Mkdir (path_parent download_path)])
      | None \<Rightarrow>
          let io = [Mkdir (path_parent download_path), OpenWrite download_path] in
          (case body of
             Inl e \<Rightarrow> (Some e, io)
           | Inr content \<Rightarrow>
               (case fs_write fs download_path content of
                  Some e \<Rightarrow> (Some e, io)
                | None \<Rightarrow> (None, io @ [WriteContent download_path content])))))"

definition get_document ::
  "services \<Rightarrow> file_system \<Rightarrow> SharepointDownloader \<Rightarrow> FileData \<Rightarrow>
   (error + DownloadResponse) \<times> io_event list" where
  "get_document srv fs self file_data =
     (case sharepoint srv of
        Inl e \<Rightarrow> (Inl e, [])
      | Inr client \<Rightarrow>
     (case get_download_path self file_data of
        Inl e \<Rightarrow> (Inl e, [])
      | Inr download_path \<Rightarrow>
          (case write_file fs download_path (download client (file_identifier file_data)) of
             (Some e, io) \<Rightarrow> (Inl e, io)
           | (None, io) \<Rightarrow>
               (Inr (generate_download_response file_data download_path), io))))"

text \<open>
  \<^verbatim>\<open>json.loads\<close>: the argument must be a string or bytes. The scanner skips white
  space and raises \<^verbatim>\<open>JSONDecodeError\<close> ("Expecting value") when the text ends there
  or goes on with a character that starts no JSON value; decoding the rest is the
  parameter \<open>json_decode\<close>.
\<close>

definition json_whitespace :: "char \<Rightarrow> bool" where
  "json_whitespace c = (c \<in> set [CHR '' '', CHR 0x09, CHR 0x0A, CHR 0x0D])"

definition json_value_start :: "char \<Rightarrow> bool" where
  "json_value_start c = (c \<in> set (CHR 0x22 # ''{[-0123456789tfnNI''))"

definition json_loads_text :: "env \<Rightarrow> string \<Rightarrow> error + pyval" where
  "json_loads_text env s =
     (case dropWhile json_whitespace s of
        [] \<Rightarrow> Inl JSONDecodeError
      | c # cs \<Rightarrow> if json_value_start c then json_decode env s else Inl JSONDecodeError)"

definition json_loads :: "env \<Rightarrow> pyval \<Rightarrow> error + pyval" where
  "json_loads env v =
     (case v of
        PStr s \<Rightarrow> json_loads_text env s
      | PBytes s \<Rightarrow> json_loads_text env s
      | _ \<Rightarrow> Inl TypeError)"

text \<open>\<^verbatim>\<open>for x in v\<close>: the elements of a list, the keys of a dictionary, the characters
  of a string; a value that is not iterable raises \<^verbatim>\<open>TypeError\<close>.\<close>

fun key_value :: "pykey \<Rightarrow> pyval" where
  "key_value (KStr s) = PStr s"
| "key_value (KInt i) = PInt i"
| "key_value (KFloat x) = PFloat x"
| "key_value (KBool b) = PBool b"
| "key_value KNone = PNone"
| "key_value KOther = PObj True"

definition py_iter :: "pyval \<Rightarrow> error + pyval list" where
  "py_iter v =
     (case v of
        PList xs \<Rightarrow> Inr xs
      | PDict kvs \<Rightarrow> Inr (map (\<lambda>kv. key_value (fst kv)) kvs)
      | PStr s \<Rightarrow> Inr (map (\<lambda>c. PStr [c]) s)
      | PBytes s \<Rightarrow> Inr (map (\<lambda>c. PInt (of_char c)) s)
      | PCyclic \<Rightarrow> Inr [PCyclic]
      | _ \<Rightarrow> Inl TypeError)"

text \<open>\<^verbatim>\<open>v.get(k, default)\<close>: only a dictionary has the method.\<close>

definition val_get :: "pyval \<Rightarrow> string \<Rightarrow> pyval \<Rightarrow> error + pyval" where
  "val_get v k dflt =
     (case v of
        PDict kvs \<Rightarrow> Inr (case map_of kvs (KStr k) of None \<Rightarrow> dflt | Some x \<Rightarrow> x)
      | _ \<Rightarrow> Inl AttributeError)"

fun layout_titles :: "env \<Rightarrow> pyval list \<Rightarrow> error + pyval list" where
  "layout_titles env [] = Inr []"
| "layout_titles env (web_part # rest) =
     bind_err (val_get web_part ''properties'' (PDict [])) (\<lambda>properties.
     bind_err (val_get properties ''title'' PNone) (\<lambda>title.
     bind_err (layout_titles env rest) (\<lambda>more.
       Inr ((if truthy title then [PStr (''<title>'' @ py_str env title @ ''</title>'')]
             else []) @ more))))"

fun canvas_html :: "pyval list \<Rightarrow> error + pyval list" where
  "canvas_html [] = Inr []"
| "canvas_html (content # rest) =
     bind_err (val_get content ''innerHTML'' PNone) (\<lambda>inner_html.
     bind_err (canvas_html rest) (\<lambda>more.
       Inr ((if truthy inner_html then [inner_html] else []) @ more)))"

text \<open>\<^verbatim>\<open>"".join(xs)\<close>: every item must be a string.\<close>

fun py_join :: "pyval list \<Rightarrow> error + string" where
  "py_join [] = Inr []"
| "py_join (PStr s # xs) = bind_err (py_join xs) (\<lambda>r. Inr (s @ r))"
| "py_join (v # xs) = Inl TypeError"

definition page_html_content :: "env \<Rightarrow> FileData \<Rightarrow> error + string" where
  "page_html_content env file_data =
     (let canvas_content_raw = get_or_none (additional_metadata file_data) ''CanvasContent1'';
          layout_web_parts_content_raw =
            get_or_none (additional_metadata file_data) ''LayoutWebpartsContent''
      in
      bind_err
        (if truthy layout_web_parts_content_raw
         then bind_err (json_loads env layout_web_parts_content_raw) (\<lambda>layout.
              bind_err (py_iter layout) (layout_titles env))
         else Inr [])
        (\<lambda>titles.
      bind_err
        (if truthy canvas_content_raw
         then bind_err (json_loads env canvas_content_raw) (\<lambda>canvas.
              bind_err (py_iter canvas) canvas_html)
         else Inr [])
        (\<lambda>inner.
      bind_err (py_join (titles @ inner)) (\<lambda>htmls.
        Inr (''<div>'' @ htmls @ ''</div>'')))))"

definition get_site_page ::
  "env \<Rightarrow> file_system \<Rightarrow> SharepointDownloader \<Rightarrow> FileData \<Rightarrow>
   (error + DownloadResponse) \<times> io_event list" where
  "get_site_page env fs self file_data =
     (case bind_err (page_html_content env file_data) (html_fromstring env) of
        Inl e \<Rightarrow> (Inl e, [])
      | Inr document \<Rightarrow>
     (case get_download_path self file_data of
        Inl e \<Rightarrow> (Inl e, [])
      | Inr download_path \<Rightarrow>
          (case write_file fs download_path (etree_tostring env document) of
             (Some e, io) \<Rightarrow> (Inl e, io)
           | (None, io) \<Rightarrow>
               (Inr (generate_download_response file_data download_path), io))))"

text \<open>
  \<^verbatim>\<open>SharepointDownloader.run\<close>: the outcome and what was done to the file system.
\<close>

definition downloader_run ::
  "services \<Rightarrow> env \<Rightarrow> file_system \<Rightarrow> SharepointDownloader \<Rightarrow> FileData \<Rightarrow>
   (error + DownloadResponse) \<times> io_event list" where
  "downloader_run srv env fs self file_data =
     (let content_type = get_or_none (additional_metadata file_data) ''sharepoint_content_type''
      in
      if \<not> truthy content_type
      then (Inl (ValueError ''Missing sharepoint_content_type metadata''), [])
      else if content_type = PStr (content_type_value DOCUMENT)
      then get_document srv fs self file_data
      else if content_type = PStr (content_type_value SITEPAGE)
      then get_site_page env fs self file_data
      else (Inl (ValueError ''content type not recognized''), []))"

section \<open>The relative path as the specification words it\<close>

text \<open>
  The specification's wording of the relative path, for comparison with what the mapping
  functions compute: "fullpath with the configured root path prefix stripped and leading
  separators removed".
\<close>

definition spec_rel_path :: "string \<Rightarrow> string \<Rightarrow> string" where
  "spec_rel_path rt full =
     dropWhile (\<lambda>c. c = CHR ''/'') (if prefix rt full then drop (length rt) full else full)"

section \<open>Example inputs\<close>

definition example_env :: env where
  "example_env =
     \<lparr>parse_datetime = (\<lambda>v. case v of PInt i \<Rightarrow> Inr i | _ \<Rightarrow> Inl (ValueError ''date'')),
      timestamp_str = (\<lambda>d. str_int d @ ''.0''),
      time_str = ''9.0'',
      quote = (\<lambda>s. s),
      str_of = (\<lambda>v. ''None''),
      recursion_limit = 900,
      json_decode = (\<lambda>s. Inr (PList [])),
      html_fromstring = Inr,
      etree_tostring = Inr\<rparr>"

definition example_fs :: file_system where
  "example_fs =
     \<lparr>fs_mkdir = (\<lambda>p. None),
      fs_open =
        (\<lambda>p. if path_parts p = [''out'', ''ro.html''] then Some (OSError ''Permission denied'')
             else None),
      fs_write = (\<lambda>p c. None)\<rparr>"

definition example_indexer :: SharepointIndexer where
  "example_indexer =
     \<lparr>connection_config =
        \<lparr>client_id = ''id'', site = ''https://t'', client_cred = ''x'',
         permissions_config = None\<rparr>,
      index_config =
        \<lparr>path = Some ''/d'', recursive = True, omit_files = False, omit_pages = False,
         omit_lists = False\<rparr>\<rparr>"

definition example_file :: "string \<Rightarrow> sp_file" where
  "example_file u =
     \<lparr>file_properties = [(''ETag'', PStr ''e1''), (''MinorVersion'', PInt 0)],
      serverRelativeUrl = u, unique_id = ''u1'', name = ''a'',
      major_version = 1, minor_version = 0,
      time_last_modified = PInt 5, time_created = PNone\<rparr>"

definition example_page :: "pydict \<Rightarrow> site_page" where
  "example_page props =
     \<lparr>page_properties = props, first_published = PStr ''0001-01-01T08:00:00Z'',
      file_name = ''h.aspx''\<rparr>"

definition example_client :: client_context where
  "example_client =
     \<lparr>base_url = ''https://t'', web_url = Inr ''https://t'',
      folder_by_path = (\<lambda>p. Inl (SdkError ''not found'')),
      default_library_root = Inr (Folder ''Docs'' ''/Docs'' [] []),
      site_pages = Inr [],
      download = (\<lambda>i. Inr ''bytes'')\<rparr>"

text \<open>The record of \<open>example_file u\<close> with relative path \<open>rp\<close>, and of a page with
  \<^verbatim>\<open>Url\<close> \<open>u\<close>.\<close>

definition example_file_record :: "string \<Rightarrow> string \<Rightarrow> FileData" where
  "example_file_record u rp =
     \<lparr>file_identifier = PStr ''u1'',
      connector_type = ''sharepoint'',
      source_identifiers = \<lparr>filename = ''a'', fullpath = u, rel_path = rp\<rparr>,
      metadata =
        \<lparr>url = PStr (''https://t'' @ u), version = PStr ''1.0'',
         date_modified = Some ''5.0'', date_created = None, date_processed = ''9.0'',
         record_locator = [(''server_path'', PStr u), (''site_url'', PStr ''https://t'')],
         permissions_data = None\<rparr>,
      additional_metadata =
        [(''ETag'', PStr ''e1''), (''sharepoint_content_type'', PStr ''document'')]\<rparr>"

definition example_page_record :: "string \<Rightarrow> string \<Rightarrow> string \<Rightarrow> FileData" where
  "example_page_record u sp rp =
     \<lparr>file_identifier = PNone,
      connector_type = ''sharepoint'',
      source_identifiers = \<lparr>filename = ''h.aspx'', fullpath = u, rel_path = rp\<rparr>,
      metadata =
        \<lparr>url = PNone, version = PNone,
         date_modified = None, date_created = None, date_processed = ''9.0'',
         record_locator = [(''server_path'', PStr sp)],
         permissions_data = None\<rparr>,
      additional_metadata =
        [(''Url'', PStr u), (''sharepoint_content_type'', PStr ''site_page'')]\<rparr>"

text \<open>The projection of an outcome on the relative path of the record.\<close>

definition rel_path_of :: "error + FileData \<Rightarrow> error + string" where
  "rel_path_of r = bind_err r (\<lambda>fd. Inr (rel_path (source_identifiers fd)))"

section \<open>The folders a recursive listing visits\<close>

text \<open>
  The segments of a path, and the specification's "reserved system segment": a segment
  equal to \<^verbatim>\<open>Forms\<close>.
\<close>

fun split_path :: "string \<Rightarrow> string list" where
  "split_path [] = [[]]"
| "split_path (c # cs) =
     (if c = CHR ''/'' then [] # split_path cs
      else (case split_path cs of seg # segs \<Rightarrow> (c # seg) # segs | [] \<Rightarrow> [[c]]))"

definition has_reserved_segment :: "string \<Rightarrow> bool" where
  "has_reserved_segment u = (''Forms'' \<in> set (split_path u))"

text \<open>
  \<open>visited rootf g\<close>: the folder \<open>g\<close> is \<open>rootf\<close> or is reached from it through child
  folders none of which has \<^verbatim>\<open>/Forms\<close> in its \<^verbatim>\<open>serverRelativeUrl\<close>.
\<close>

inductive visited :: "folder \<Rightarrow> folder \<Rightarrow> bool" where
  visited_root: "visited rootf rootf"
| visited_below:
    "d \<in> set (folders rootf) \<Longrightarrow> \<not> contains ''/Forms'' (folder_url d) \<Longrightarrow> visited d g \<Longrightarrow>
     visited rootf g"

code_pred visited .

definition tree_file :: "string \<Rightarrow> sp_file" where
  "tree_file u =
     \<lparr>file_properties = [], serverRelativeUrl = u, unique_id = u, name = ''t'',
      major_version = 1, minor_version = 0, time_last_modified = PNone, time_created = PNone\<rparr>"

definition example_subfolder :: folder where
  "example_subfolder = Folder ''s'' ''/d/s'' [tree_file ''/d/s/b''] []"

definition example_tree :: folder where
  "example_tree =
     Folder ''d'' ''/d'' [tree_file ''/d/a'']
       [Folder ''Forms'' ''/d/Forms'' [tree_file ''/d/Forms/t''] [], example_subfolder]"

section \<open>The vocabulary of the enrichment claims\<close>

text \<open>
  A record has a unique match when it carries an \<^verbatim>\<open>ETag\<close> and exactly one drive item
  has that etag; it has several when more than one item has it. The warning logged for
  a record with several matches names the etag and the items.
\<close>

definition unique_match :: "DriveItem list \<Rightarrow> FileData \<Rightarrow> bool" where
  "unique_match existing_items file_data =
     (case dict_get (additional_metadata file_data) ''ETag'' of
        None \<Rightarrow> False
      | Some etag \<Rightarrow> length (matching etag existing_items) = 1)"

definition multi_match :: "DriveItem list \<Rightarrow> FileData \<Rightarrow> bool" where
  "multi_match existing_items file_data =
     (case dict_get (additional_metadata file_data) ''ETag'' of
        None \<Rightarrow> False
      | Some etag \<Rightarrow> 1 < length (matching etag existing_items))"

definition multi_match_warning :: "DriveItem list \<Rightarrow> FileData \<Rightarrow> log_entry" where
  "multi_match_warning existing_items file_data =
     (let etag = get_or_none (additional_metadata file_data) ''ETag'' in
      Warning etag (map item_name (matching etag existing_items)))"

text \<open>
  What the enrichment relies on in a record, and every record of \<^verbatim>\<open>file_to_file_data\<close>
  has: no permissions yet, and an \<^verbatim>\<open>ETag\<close> that is truthy when present.
\<close>

definition enrichable :: "FileData \<Rightarrow> bool" where
  "enrichable fd \<longleftrightarrow>
     permissions_data (metadata fd) = None \<and>
     (case dict_get (additional_metadata fd) ''ETag'' of None \<Rightarrow> True | Some v \<Rightarrow> truthy v)"

definition example_permission :: Permission where
  "example_permission =
     \<lparr>permission_id = PStr ''1'', roles = [PStr ''read''], share_id = PNone,
      has_password = PBool False, link = PDict [], granted_to_identities = PList [],
      granted_to = PDict [], granted_to_v2 = PDict [], granted_to_identities_v2 = PList [],
      invitation = PDict []\<rparr>"

definition example_item :: "string \<Rightarrow> string \<Rightarrow> DriveItem" where
  "example_item n e =
     \<lparr>item_name = n, item_etag = Some e, item_permissions = Inr [example_permission]\<rparr>"

definition example_items :: "DriveItem list" where
  "example_items = [example_item ''a'' ''e1'', example_item ''b'' ''e2'']"

definition example_site :: client_context where
  "example_site =
     \<lparr>base_url = ''https://t'', web_url = Inr ''https://t'',
      folder_by_path =
        (\<lambda>p. if p = ''/d'' then Inr (Folder ''d'' ''/d'' [example_file ''/d/a''] [])
             else Inl (SdkError ''not found'')),
      default_library_root = Inr (Folder ''Docs'' ''/Docs'' [] []),
      site_pages = Inr [example_page [(''Url'', PStr ''p/h'')]],
      download = (\<lambda>i. Inr ''bytes'')\<rparr>"

definition example_services :: services where
  "example_services =
     \<lparr>sharepoint = Inr example_site,
      graph = \<lparr>site_by_url =
                (\<lambda>u. Inr \<lparr>drives = Inr [\<lparr>root_children = Inr example_items\<rparr>]\<rparr>)\<rparr>\<rparr>"

definition example_permissions_config :: SharepointPermissionsConfig where
  "example_permissions_config =
     \<lparr>permissions_application_id = Some ''app'', permissions_tenant = Some ''t'',
      permissions_client_cred = Some ''c'', authority_url = None\<rparr>"

definition example_permissions_indexer :: SharepointIndexer where
  "example_permissions_indexer =
     example_indexer\<lparr>connection_config :=
       (connection_config example_indexer)\<lparr>permissions_config :=
          Some example_permissions_config\<rparr>\<rparr>"

definition example_enriched_record :: FileData where
  "example_enriched_record =
     (example_file_record ''/d/a'' ''a'')\<lparr>metadata :=
        (metadata (example_file_record ''/d/a'' ''a''))\<lparr>permissions_data :=
           Some [map_permission example_permission]\<rparr>\<rparr>"

definition example_downloader :: SharepointDownloader where
  "example_downloader =
     \<lparr>downloader_connection_config = connection_config example_indexer,
      host_download_path =
        (\<lambda>fd. \<lparr>path_anchor = ''/'', path_parts = [''out'', rel_path (source_identifiers fd)]\<rparr>)\<rparr>"

text \<open>A page record with the content-type tag \<open>tag\<close> and the canvas content \<open>canvas\<close>.\<close>

definition example_canvas_record :: "string \<Rightarrow> string \<Rightarrow> FileData" where
  "example_canvas_record tag canvas =
     (example_page_record ''p/h'' ''p/h'' ''p/h'')\<lparr>additional_metadata :=
        [(''CanvasContent1'', PStr canvas), (''sharepoint_content_type'', PStr tag)]\<rparr>"

section \<open>Auxiliary lemmas\<close>

lemmas example_defs =
  file_to_file_data_def page_to_file_data_def example_env_def example_indexer_def
  example_file_def example_page_def example_client_def example_file_record_def
  example_page_record_def bind_err_def parse_if_def
  get_properties_def json_dumps_def dict_set_def dict_get_def get_or_none_def remove_path_def
  py_replace_def page_url_def server_path_of_def Let_def
  CONNECTOR_TYPE_def py_str_def str_int_def

lemma bind_err_Inr_iff:
  "bind_err m f = Inr y \<longleftrightarrow> (\<exists>x. m = Inr x \<and> f x = Inr y)"
  by (cases m) (auto simp: bind_err_def)

lemma bind_err_Inr [simp]: "bind_err (Inr x) f = f x"
  by (simp add: bind_err_def)

lemma bind_err_Inl [simp]: "bind_err (Inl e) f = Inl e"
  by (simp add: bind_err_def)

lemma strip_leading_sep_eq:
  "strip_leading_sep s =
     (if set s \<subseteq> {CHR ''/''} then Inl IndexError else Inr (dropWhile (\<lambda>c. c = CHR ''/'') s))"
  by (induction s) auto

lemma update_fresh: "k \<notin> fst ` set d \<Longrightarrow> AList.update k v d = d @ [(k, v)]"
  by (induction d) auto

lemma filter_properties_eq:
  "distinct (map fst kvs) \<Longrightarrow> fst ` set kvs \<inter> fst ` set acc = {} \<Longrightarrow>
   \<forall>kv\<in>set kvs. json_dumps env (snd kv) = Inr () \<or> json_dumps env (snd kv) = Inl TypeError \<Longrightarrow>
   filter_properties env kvs acc =
     Inr (acc @ filter (\<lambda>kv. json_serializable env (snd kv)) kvs)"
proof (induction kvs arbitrary: acc)
  case Nil
  then show ?case by simp
next
  case (Cons kv kvs)
  obtain k v where kv: "kv = (k, v)" by (cases kv)
  from Cons.prems have fresh: "k \<notin> fst ` set acc" and d: "distinct (map fst kvs)"
    and nk: "k \<notin> fst ` set kvs" and disj: "fst ` set kvs \<inter> fst ` set acc = {}"
    and rest: "\<forall>kv\<in>set kvs. json_dumps env (snd kv) = Inr () \<or>
                             json_dumps env (snd kv) = Inl TypeError"
    and here: "json_dumps env v = Inr () \<or> json_dumps env v = Inl TypeError"
    by (auto simp: kv)
  from here show ?case
  proof
    assume ok: "json_dumps env v = Inr ()"
    have "fst ` set kvs \<inter> fst ` set (dict_set acc k v) = {}"
      using disj nk fresh by (auto simp: dict_set_def update_fresh)
    from Cons.IH[OF d this rest] ok fresh show ?thesis
      by (simp add: kv json_serializable_def dict_set_def update_fresh)
  next
    assume no: "json_dumps env v = Inl TypeError"
    from Cons.IH[OF d disj rest] no show ?thesis
      by (simp add: kv json_serializable_def)
  qed
qed

lemma filter_properties_error:
  "filter_properties env kvs acc = Inl e \<Longrightarrow>
   e \<noteq> TypeError \<and> (\<exists>kv\<in>set kvs. json_dumps env (snd kv) = Inl e)"
proof (induction kvs arbitrary: acc)
  case Nil
  then show ?case by simp
next
  case (Cons kv kvs)
  obtain k v where kv: "kv = (k, v)" by (cases kv)
  show ?case
  proof (cases "json_dumps env v")
    case (Inr u)
    with Cons.prems have "filter_properties env kvs (dict_set acc k v) = Inl e"
      by (simp add: kv)
    from Cons.IH[OF this] show ?thesis by auto
  next
    case (Inl e')
    show ?thesis
    proof (cases "e' = TypeError")
      case True
      with Inl Cons.prems have "filter_properties env kvs acc = Inl e"
        by (simp add: kv)
      from Cons.IH[OF this] show ?thesis by auto
    next
      case False
      with Inl Cons.prems have "e = e'" by (simp add: kv)
      with Inl False show ?thesis by (simp add: kv)
    qed
  qed
qed

lemma filter_properties_raises:
  "\<exists>kv\<in>set kvs. \<exists>e'. json_dumps env (snd kv) = Inl e' \<and> e' \<noteq> TypeError \<Longrightarrow>
   \<exists>e. filter_properties env kvs acc = Inl e"
proof (induction kvs arbitrary: acc)
  case Nil
  then show ?case by simp
next
  case (Cons kv kvs)
  obtain k v where kv: "kv = (k, v)" by (cases kv)
  show ?case
  proof (cases "\<exists>e'. json_dumps env v = Inl e' \<and> e' \<noteq> TypeError")
    case True
    then show ?thesis by (auto simp: kv)
  next
    case False
    with Cons.prems
    have later: "\<exists>kv\<in>set kvs. \<exists>e'. json_dumps env (snd kv) = Inl e' \<and> e' \<noteq> TypeError"
      by (auto simp: kv)
    from False have "json_dumps env v = Inr () \<or> json_dumps env v = Inl TypeError"
      by (cases "json_dumps env v") auto
    then show ?thesis
      using Cons.IH[OF later] by (auto simp: kv)
  qed
qed

lemma filter_properties_distinct:
  "filter_properties env kvs acc = Inr d \<Longrightarrow> distinct (map fst acc) \<Longrightarrow> distinct (map fst d)"
proof (induction kvs arbitrary: acc)
  case Nil
  then show ?case by simp
next
  case (Cons kv kvs)
  obtain k v where kv: "kv = (k, v)" by (cases kv)
  show ?case
  proof (cases "json_dumps env v")
    case (Inr u)
    with Cons.prems have "filter_properties env kvs (dict_set acc k v) = Inr d"
      by (simp add: kv)
    moreover have "distinct (map fst (dict_set acc k v))"
      using Cons.prems(2) by (simp add: dict_set_def distinct_update)
    ultimately show ?thesis by (rule Cons.IH)
  next
    case (Inl e')
    with Cons.prems have "filter_properties env kvs acc = Inr d"
      by (simp add: kv split: if_splits)
    then show ?thesis using Cons.prems(2) by (rule Cons.IH)
  qed
qed

lemma get_properties_distinct: "get_properties env raw = Inr d \<Longrightarrow> distinct (map fst d)"
  unfolding get_properties_def by (erule filter_properties_distinct) simp

lemma get_properties_returns:
  assumes "distinct (map fst raw)" "get_properties env raw = Inr d"
  shows "d = filter (\<lambda>kv. truthy (snd kv) \<and> json_serializable env (snd kv)) raw"
proof -
  let ?t = "filter (\<lambda>kv. truthy (snd kv)) raw"
  have dt: "distinct (map fst ?t)"
    using assms(1) by (simp add: distinct_map_filter)
  have "\<not> (\<exists>kv\<in>set ?t. \<exists>e'. json_dumps env (snd kv) = Inl e' \<and> e' \<noteq> TypeError)"
    using filter_properties_raises[of ?t env "[]"] assms(2)
    by (auto simp: get_properties_def)
  then have "\<forall>kv\<in>set ?t. json_dumps env (snd kv) = Inr () \<or>
                          json_dumps env (snd kv) = Inl TypeError"
    by (metis (full_types) old.unit.exhaust sum.exhaust)
  from filter_properties_eq[OF dt _ this, of "[]"] assms(2) show ?thesis
    by (simp add: get_properties_def conj_commute)
qed

lemma get_properties_raises_iff:
  "(\<exists>e. get_properties env raw = Inl e) \<longleftrightarrow>
   (\<exists>kv\<in>set raw. truthy (snd kv) \<and> (\<exists>e'. json_dumps env (snd kv) = Inl e' \<and> e' \<noteq> TypeError))"
proof
  assume "\<exists>e. get_properties env raw = Inl e"
  then obtain e where "filter_properties env (filter (\<lambda>kv. truthy (snd kv)) raw) [] = Inl e"
    by (auto simp: get_properties_def)
  from filter_properties_error[OF this] obtain kv where ne: "e \<noteq> TypeError"
    and kv: "kv \<in> set (filter (\<lambda>kv. truthy (snd kv)) raw)"
    and j: "json_dumps env (snd kv) = Inl e"
    by blast
  from kv have "kv \<in> set raw" and "truthy (snd kv)" by simp_all
  with ne j
  show "\<exists>kv\<in>set raw. truthy (snd kv) \<and> (\<exists>e'. json_dumps env (snd kv) = Inl e' \<and> e' \<noteq> TypeError)"
    by blast
next
  assume "\<exists>kv\<in>set raw. truthy (snd kv) \<and> (\<exists>e'. json_dumps env (snd kv) = Inl e' \<and> e' \<noteq> TypeError)"
  then obtain kv e' where kv: "kv \<in> set raw" "truthy (snd kv)"
    and j: "json_dumps env (snd kv) = Inl e'" "e' \<noteq> TypeError"
    by blast
  from kv have "kv \<in> set (filter (\<lambda>kv. truthy (snd kv)) raw)" by simp
  with j have "\<exists>kv\<in>set (filter (\<lambda>kv. truthy (snd kv)) raw).
               \<exists>e'. json_dumps env (snd kv) = Inl e' \<and> e' \<noteq> TypeError"
    by blast
  from filter_properties_raises[OF this, of "[]"]
  show "\<exists>e. get_properties env raw = Inl e"
    by (simp add: get_properties_def)
qed

lemma get_properties_error:
  assumes "get_properties env raw = Inl e"
  shows "e \<noteq> TypeError \<and> (\<exists>kv\<in>set raw. truthy (snd kv) \<and> json_dumps env (snd kv) = Inl e)"
proof -
  from filter_properties_error[OF assms[unfolded get_properties_def]]
  obtain kv where ne: "e \<noteq> TypeError"
    and kv: "kv \<in> set (filter (\<lambda>kv. truthy (snd kv)) raw)"
    and j: "json_dumps env (snd kv) = Inl e"
    by blast
  from kv have "kv \<in> set raw" and "truthy (snd kv)" by simp_all
  with ne j show ?thesis by blast
qed

lemma count_key_distinct:
  "distinct (map fst d) \<Longrightarrow> k \<in> fst ` set d \<Longrightarrow> length (filter (\<lambda>kv. fst kv = k) d) = 1"
proof (induction d)
  case Nil
  then show ?case by simp
next
  case (Cons a d)
  show ?case
  proof (cases "fst a = k")
    case True
    with Cons.prems have "filter (\<lambda>kv. fst kv = k) d = []"
      by (force simp: filter_empty_conv image_iff)
    with True show ?thesis by simp
  next
    case False
    with Cons show ?thesis by auto
  qed
qed

lemma dict_set_tag:
  assumes "distinct (map fst d)"
  shows "dict_get (dict_set d k v) k = Some v \<and>
         length (filter (\<lambda>kv. fst kv = k) (dict_set d k v)) = 1"
proof -
  have "map_of (AList.update k v d) k = Some v"
    by (simp add: update_conv')
  moreover have "distinct (map fst (AList.update k v d))"
    using assms by (simp add: distinct_update)
  moreover have "k \<in> fst ` set (AList.update k v d)"
    by (induction d) auto
  ultimately show ?thesis
    by (simp add: dict_get_def dict_set_def count_key_distinct)
qed

lemma file_to_file_data_Inr:
  assumes "file_to_file_data env self client file = Inr fd"
  obtains props replaced rp where
    "get_properties env (file_properties file) = Inr props"
    "remove_path (serverRelativeUrl file) (path (index_config self)) = Inr replaced"
    "strip_leading_sep replaced = Inr rp"
    "source_identifiers fd =
       \<lparr>filename = name file, fullpath = serverRelativeUrl file, rel_path = rp\<rparr>"
    "additional_metadata fd =
       dict_set props ''sharepoint_content_type'' (PStr (content_type_value DOCUMENT))"
    "permissions_data (metadata fd) = None"
  using assms unfolding file_to_file_data_def Let_def bind_err_Inr_iff
  by (elim exE conjE) (auto simp: Let_def)

lemma page_to_file_data_Inr:
  assumes "page_to_file_data env self page = Inr fd"
  obtains props file_path rel where
    "get_properties env (page_properties page) = Inr props"
    "page_url page = Inr file_path"
    "remove_path file_path (path (index_config self)) = Inr rel"
    "source_identifiers fd =
       \<lparr>filename = file_name page, fullpath = file_path, rel_path = rel\<rparr>"
    "additional_metadata fd =
       dict_set props ''sharepoint_content_type'' (PStr (content_type_value SITEPAGE))"
  using assms unfolding page_to_file_data_def Let_def bind_err_Inr_iff
  by (elim exE conjE) (auto simp: Let_def)

lemma replace_ne_absent: "\<not> contains old s \<Longrightarrow> replace_ne old new s = s"
  by (induction s) auto

lemma replace_ne_prefix:
  "old \<noteq> [] \<Longrightarrow> replace_ne old new (old @ rest) = new @ replace_ne old new rest"
  by (cases old) auto

lemma concat_singletons: "concat (map (\<lambda>c. [c]) s) = s"
  by (induction s) auto

lemma py_replace_prefix_only:
  assumes "p = [] \<or> (prefix p s \<and> \<not> contains p (drop (length p) s))"
  shows "py_replace s p [] = drop (length p) s"
proof (cases "p = []")
  case True
  then show ?thesis by (simp add: py_replace_def concat_singletons)
next
  case False
  with assms obtain rest where s: "s = p @ rest" and nc: "\<not> contains p rest"
    by (auto simp: prefix_def)
  from False show ?thesis
    by (simp add: py_replace_def s replace_ne_prefix replace_ne_absent[OF nc])
qed

lemma dropWhile_sep_head:
  "dropWhile (\<lambda>c. c = CHR ''/'') s \<noteq> [] \<Longrightarrow> hd (dropWhile (\<lambda>c. c = CHR ''/'') s) \<noteq> CHR ''/''"
  using hd_dropWhile[of "\<lambda>c. c = CHR ''/''" s] by simp


lemma visited_Folder:
  "visited (Folder n u fs ds) g \<longleftrightarrow>
     g = Folder n u fs ds \<or>
     (\<exists>d\<in>set ds. \<not> contains ''/Forms'' (folder_url d) \<and> visited d g)"
  by (subst visited.simps) auto

lemma list_files_iff:
  "x \<in> set (list_files rootf True) \<longleftrightarrow> (\<exists>g. visited rootf g \<and> x \<in> set (files g))"
proof (induction rootf)
  case (Folder n u fs ds)
  have "x \<in> set (list_files (Folder n u fs ds) True) \<longleftrightarrow>
        x \<in> set fs \<or> (\<exists>d\<in>set ds. \<not> contains ''/Forms'' (folder_url d) \<and>
                          x \<in> set (list_files d True))"
    by auto
  also have "\<dots> \<longleftrightarrow> x \<in> set fs \<or> (\<exists>d\<in>set ds. \<not> contains ''/Forms'' (folder_url d) \<and>
                          (\<exists>g. visited d g \<and> x \<in> set (files g)))"
    using Folder.IH by blast
  also have "\<dots> \<longleftrightarrow> (\<exists>g. visited (Folder n u fs ds) g \<and> x \<in> set (files g))"
    unfolding visited_Folder by auto
  finally show ?case .
qed

lemma visited_url: "visited rootf g \<Longrightarrow> g = rootf \<or> \<not> contains ''/Forms'' (folder_url g)"
  by (induction rule: visited.induct) auto

lemma list_files_flat: "list_files rootf False = files rootf"
  by (cases rootf) simp

lemma map_err_list_all2:
  "map_err f xs = Inr ys \<Longrightarrow> list_all2 (\<lambda>x y. f x = Inr y) xs ys"
proof (induction xs arbitrary: ys)
  case Nil
  then show ?case by simp
next
  case (Cons x xs)
  then show ?case by (auto simp: bind_err_Inr_iff)
qed

lemma update_subset: "set (AList.update k v d) \<subseteq> insert (k, v) (set d)"
  by (induction d) auto

lemma filter_properties_values:
  "filter_properties env kvs acc = Inr d \<Longrightarrow> set d \<subseteq> set acc \<union> set kvs"
proof (induction kvs arbitrary: acc)
  case Nil
  then show ?case by simp
next
  case (Cons kv kvs)
  obtain k v where kv: "kv = (k, v)" by (cases kv)
  show ?case
  proof (cases "json_dumps env v")
    case (Inr u)
    with Cons.prems have "filter_properties env kvs (dict_set acc k v) = Inr d"
      by (simp add: kv)
    from Cons.IH[OF this] update_subset[of k v acc] show ?thesis
      by (auto simp: kv dict_set_def)
  next
    case (Inl e')
    with Cons.prems have "filter_properties env kvs acc = Inr d"
      by (simp add: kv split: if_splits)
    from Cons.IH[OF this] show ?thesis by auto
  qed
qed

lemma get_properties_truthy:
  assumes "get_properties env raw = Inr d" "(k, v) \<in> set d"
  shows "truthy v"
  using filter_properties_values[OF assms(1)[unfolded get_properties_def]] assms(2) by auto

text \<open>Every value in the additional metadata of a file record is truthy.\<close>

lemma file_record_truthy:
  assumes "file_to_file_data env self client f = Inr fd"
    and "dict_get (additional_metadata fd) k = Some v"
  shows "truthy v"
proof -
  from assms(1) obtain props where p: "get_properties env (file_properties f) = Inr props"
    and m: "additional_metadata fd =
       dict_set props ''sharepoint_content_type'' (PStr (content_type_value DOCUMENT))"
    by (rule file_to_file_data_Inr)
  from assms(2) have "(k, v) \<in> set (additional_metadata fd)"
    by (simp add: dict_get_def map_of_SomeD)
  with m update_subset[of "''sharepoint_content_type''" "PStr ''document''" props]
  have "(k, v) = (''sharepoint_content_type'', PStr ''document'') \<or> (k, v) \<in> set props"
    by (auto simp: dict_set_def)
  then show ?thesis using get_properties_truthy[OF p] by auto
qed

lemma enrich_one_cases:
  assumes t: "\<And>v. dict_get (additional_metadata fd) ''ETag'' = Some v \<Longrightarrow> truthy v"
    and n: "permissions_data (metadata fd) = None"
    and e: "enrich_one items fd = Inr (fd', w)"
  shows "(permissions_data (metadata fd') \<noteq> None \<longleftrightarrow> unique_match items fd) \<and>
         (\<not> unique_match items fd \<longrightarrow> fd' = fd)"
proof (cases "dict_get (additional_metadata fd) ''ETag''")
  case None
  with e n show ?thesis
    by (simp add: enrich_one_def get_or_none_def unique_match_def)
next
  case (Some v)
  then have tv: "truthy v" by (rule t)
  consider (zero) "matching v items = []" | (one) x where "matching v items = [x]"
    | (many) "length (matching v items) > 1"
    by (cases "matching v items" rule: list.exhaust; cases "tl (matching v items)") auto
  then show ?thesis
  proof cases
    case zero
    with e n Some tv show ?thesis
      by (simp add: enrich_one_def get_or_none_def unique_match_def)
  next
    case (one x)
    with e n Some tv show ?thesis
      by (auto simp: enrich_one_def get_or_none_def unique_match_def bind_err_Inr_iff)
  next
    case many
    then have c: "(matching v items = []) = False" "(Suc 0 < length (matching v items)) = True"
      by auto
    from e Some tv have "fd' = fd"
      by (simp add: enrich_one_def get_or_none_def Let_def c)
    with n many Some show ?thesis
      by (simp add: unique_match_def)
  qed
qed

lemma enrich_one_error:
  assumes "enrich_one items fd = Inl e"
  shows "\<exists>x. matching (get_or_none (additional_metadata fd) ''ETag'') items = [x] \<and>
             truthy (get_or_none (additional_metadata fd) ''ETag'') \<and>
             item_permissions x = Inl e"
proof -
  let ?m = "matching (get_or_none (additional_metadata fd) ''ETag'') items"
  from assms have t: "truthy (get_or_none (additional_metadata fd) ''ETag'')"
    and ne: "?m \<noteq> []" and le: "\<not> length ?m > 1"
    by (auto simp: enrich_one_def Let_def split: if_splits)
  from ne le obtain x where x: "?m = [x]"
    by (cases ?m; cases "tl ?m") auto
  with assms t have "item_permissions x = Inl e"
    by (cases "item_permissions x") (auto simp: enrich_one_def Let_def)
  with x t show ?thesis by blast
qed

lemma enrich_loop_error:
  "enrich_loop items batch = Inl e \<Longrightarrow> \<exists>fd\<in>set batch. enrich_one items fd = Inl e"
proof (induction batch)
  case Nil
  then show ?case by simp
next
  case (Cons fd batch)
  show ?case
  proof (cases "enrich_one items fd")
    case (Inl e')
    with Cons.prems show ?thesis by simp
  next
    case (Inr r)
    with Cons.prems have "enrich_loop items batch = Inl e"
      by (cases "enrich_loop items batch") auto
    with Cons.IH show ?thesis by auto
  qed
qed


lemma enrich_one_warning:
  assumes t: "\<And>v. dict_get (additional_metadata fd) ''ETag'' = Some v \<Longrightarrow> truthy v"
    and e: "enrich_one items fd = Inr (fd', w)"
  shows "w = (if multi_match items fd then [multi_match_warning items fd] else [])"
proof (cases "dict_get (additional_metadata fd) ''ETag''")
  case None
  with e show ?thesis
    by (simp add: enrich_one_def get_or_none_def multi_match_def)
next
  case (Some v)
  then have tv: "truthy v" by (rule t)
  show ?thesis
  proof (cases "Suc 0 < length (matching v items)")
    case True
    then have c: "(matching v items = []) = False" by auto
    from e Some tv True show ?thesis
      by (simp add: enrich_one_def get_or_none_def Let_def c multi_match_def
            multi_match_warning_def)
  next
    case False
    with e Some tv show ?thesis
      by (auto simp: enrich_one_def get_or_none_def Let_def multi_match_def bind_err_Inr_iff
            split: if_splits)
  qed
qed

lemma enrich_loop_result:
  assumes "list_all enrichable batch" "enrich_loop items batch = Inr (batch', ws)"
  shows "list_all2 (\<lambda>fd fd'. (permissions_data (metadata fd') \<noteq> None \<longleftrightarrow> unique_match items fd) \<and>
                          (\<not> unique_match items fd \<longrightarrow> fd' = fd)) batch batch' \<and>
         ws = map (multi_match_warning items) (filter (multi_match items) batch)"
  using assms
proof (induction batch arbitrary: batch' ws)
  case Nil
  then show ?case by simp
next
  case (Cons fd batch)
  from Cons.prems(2) obtain r rs where r: "enrich_one items fd = Inr r"
    and rs: "enrich_loop items batch = Inr rs"
    and b: "batch' = fst r # fst rs" and w: "ws = snd r @ snd rs"
    by (auto simp: bind_err_Inr_iff)
  from Cons.prems(1) have en: "enrichable fd" and rest: "list_all enrichable batch"
    by simp_all
  from en have t: "\<And>v. dict_get (additional_metadata fd) ''ETag'' = Some v \<Longrightarrow> truthy v"
    and n: "permissions_data (metadata fd) = None"
    by (auto simp: enrichable_def)
  from r have r': "enrich_one items fd = Inr (fst r, snd r)" by simp
  note one = enrich_one_cases[OF t n r'] enrich_one_warning[OF t r']
  from rs have "enrich_loop items batch = Inr (fst rs, snd rs)" by simp
  from Cons.IH[OF rest this] one show ?case
    by (simp add: b w)
qed

lemma file_records_enrichable:
  assumes "map_err (file_to_file_data env self client) fs = Inr batch"
  shows "list_all enrichable batch"
proof -
  have "enrichable fd" if "fd \<in> set batch" for fd
  proof -
    from map_err_list_all2[OF assms] that
    obtain f where f: "file_to_file_data env self client f = Inr fd"
      by (auto simp: list_all2_conv_all_nth in_set_conv_nth)
    from f have "permissions_data (metadata fd) = None"
      by (rule file_to_file_data_Inr)
    with file_record_truthy[OF f] show ?thesis
      by (auto simp: enrichable_def split: option.splits)
  qed
  then show ?thesis by (simp add: list_all_iff)
qed

lemma enrich_loop_error_unique:
  assumes "list_all enrichable batch" "enrich_loop items batch = Inl e"
  shows "\<exists>fd\<in>set batch. \<exists>x\<in>set items. unique_match items fd \<and> item_permissions x = Inl e"
proof -
  from enrich_loop_error[OF assms(2)] obtain fd where fd: "fd \<in> set batch"
    and e: "enrich_one items fd = Inl e" by blast
  from enrich_one_error[OF e] obtain x where
    x: "matching (get_or_none (additional_metadata fd) ''ETag'') items = [x]"
    and t: "truthy (get_or_none (additional_metadata fd) ''ETag'')"
    and p: "item_permissions x = Inl e" by blast
  from x have "x \<in> set (matching (get_or_none (additional_metadata fd) ''ETag'') items)"
    by simp
  then have xi: "x \<in> set items" by (simp add: matching_def)
  from t x have "unique_match items fd"
    by (auto simp: unique_match_def get_or_none_def split: option.splits)
  with fd xi p show ?thesis by blast
qed


lemma yield_pages_all:
  "map_err (page_to_file_data env self) pages = Inr pds \<Longrightarrow>
   yield_pages env self client pages = (map (with_site_url client) pds, None)"
proof (induction pages arbitrary: pds)
  case Nil
  then show ?case by simp
next
  case (Cons page pages)
  then show ?case by (auto simp: bind_err_Inr_iff Let_def)
qed

lemma rfind_bounds: "- 1 \<le> rfind s c \<and> rfind s c < int (length s)"
  by (induction s) (auto simp: Let_def)

lemma rfind_append:
  "rfind (s @ t) c = (if 0 \<le> rfind t c then int (length s) + rfind t c else rfind s c)"
  using rfind_bounds[of t c] by (induction s) (auto simp: Let_def)

lemma rfind_html: "rfind (s @ ''.html'') CHR ''.'' = int (length s)"
  by (simp add: rfind_append Let_def)

lemma name_suffix_html: "s \<noteq> [] \<Longrightarrow> name_suffix (s @ ''.html'') = ''.html''"
  by (simp add: name_suffix_def rfind_html)

lemma name_suffix_shorter:
  "name_suffix nm \<noteq> [] \<Longrightarrow> length (name_suffix nm) < length nm"
  using rfind_bounds[of nm "CHR ''.''"]
  by (auto simp: name_suffix_def Let_def split: if_splits)

lemma path_name_replaced: "path_name (p\<lparr>path_parts := ps @ [n]\<rparr>) = n"
  by (simp add: path_name_def)

lemma with_suffix_html:
  assumes "with_suffix p ''.html'' = Inr q"
  shows "path_suffix q = ''.html'' \<and> path_anchor q = path_anchor p \<and>
         butlast (path_parts q) = butlast (path_parts p)"
proof -
  let ?nm = "path_name p"
  let ?stem = "if name_suffix ?nm = [] then ?nm
               else take (length ?nm - length (name_suffix ?nm)) ?nm"
  from assms have ne: "?nm \<noteq> []"
    and q: "q = p\<lparr>path_parts := butlast (path_parts p) @ [?stem @ ''.html'']\<rparr>"
    by (auto simp: with_suffix_def Let_def split: if_splits)
  have "?stem \<noteq> []"
    using ne name_suffix_shorter[of ?nm] by auto
  then have "name_suffix (?stem @ ''.html'') = ''.html''"
    by (rule name_suffix_html)
  then show ?thesis
    unfolding q path_suffix_def path_name_replaced by simp
qed

lemma with_suffix_html_total:
  "path_name p \<noteq> [] \<Longrightarrow> \<exists>q. with_suffix p ''.html'' = Inr q"
  by (simp add: with_suffix_def Let_def)

lemmas run_defs = downloader_run_def get_site_page_def get_document_def page_html_content_def
  write_file_def example_fs_def
  json_loads_def json_loads_text_def json_whitespace_def json_value_start_def
  get_or_none_def dict_get_def example_canvas_record_def example_page_record_def
  example_env_def example_services_def example_downloader_def Let_def bind_err_def
  get_download_path_def with_suffix_def path_name_def name_suffix_def path_parent_def
  py_iter_def generate_download_response_def example_site_def example_file_record_def

text \<open>
  The failures the model has beside the ones the claims are about: \<^verbatim>\<open>json.dumps\<close> on
  a value nested deeper than the encoder can descend, and a page whose file cannot be
  opened once its directory has been created.
\<close>

lemma json_dumps_too_deep:
  "json_dumps (example_env\<lparr>recursion_limit := 1\<rparr>) (PList [PList []]) = Inl RecursionError"
  by (simp add: json_dumps_def example_env_def)

lemma get_site_page_fails_after_mkdir:
  "get_site_page example_env example_fs example_downloader
     (example_page_record ''p/h'' ''p/h'' ''ro.aspx'') =
     (Inl (OSError ''Permission denied''),
      [Mkdir \<lparr>path_anchor = ''/'', path_parts = [''out'']\<rparr>])"
  by (simp add: run_defs)

section \<open>Claims about the metadata mapping\<close>

text \<open>
  Claim C3, as it is stated, fails twice. \<^verbatim>\<open>get_properties\<close> does not keep every raw
  property whose value is JSON-serializable: the comprehension at its start drops every
  falsy value first, so a property such as \<^verbatim>\<open>MinorVersion = 0\<close>, which \<^verbatim>\<open>json.dumps\<close>
  accepts, is dropped. And dropping is not always silent: only \<^verbatim>\<open>TypeError\<close> is caught,
  so a value that contains itself, on which \<^verbatim>\<open>json.dumps\<close> raises \<^verbatim>\<open>ValueError\<close>, makes
  \<^verbatim>\<open>get_properties\<close> raise.
\<close>

theorem get_properties_drops_serializable_value:
  "get_properties example_env [(''MinorVersion'', PInt 0), (''Name'', PStr ''a.txt'')] =
     Inr [(''Name'', PStr ''a.txt'')] \<and>
   json_dumps example_env (PInt 0) = Inr () \<and>
   get_properties example_env [(''Name'', PStr ''a.txt''), (''Self'', PCyclic)] =
     Inl (ValueError ''Circular reference detected'')"
  by (simp add: get_properties_def json_dumps_def dict_set_def)

text \<open>
  Claim C3, amended: on a property dictionary (no key twice), whenever \<^verbatim>\<open>get_properties\<close>
  returns, it returns, in their order, exactly the key-value pairs whose value is truthy
  and JSON-serializable: a pair is dropped if and only if its value is falsy or cannot
  be JSON-serialized. It returns, dropping silently, unless \<^verbatim>\<open>json.dumps\<close> raises
  something other than \<^verbatim>\<open>TypeError\<close> on a truthy value (\<^verbatim>\<open>ValueError\<close> for a circular
  reference, \<^verbatim>\<open>RecursionError\<close> for too deep a nesting): it raises if and only if
  there is such a value, and what it raises is then the exception of \<^verbatim>\<open>json.dumps\<close> on
  one of them, never a \<^verbatim>\<open>TypeError\<close>.
\<close>

theorem get_properties_keeps_truthy_serializable:
  assumes "distinct (map fst raw)"
  shows
   "(get_properties env raw = Inr d \<longrightarrow>
       d = filter (\<lambda>kv. truthy (snd kv) \<and> json_serializable env (snd kv)) raw)
    \<and>
    ((\<exists>e. get_properties env raw = Inl e) \<longleftrightarrow>
       (\<exists>kv\<in>set raw. truthy (snd kv) \<and>
          (\<exists>e'. json_dumps env (snd kv) = Inl e' \<and> e' \<noteq> TypeError)))
    \<and>
    (get_properties env raw = Inl e \<longrightarrow>
       e \<noteq> TypeError \<and>
       (\<exists>kv\<in>set raw. truthy (snd kv) \<and> json_dumps env (snd kv) = Inl e))"
  using get_properties_returns[OF assms, of env d] get_properties_raises_iff[of env raw]
        get_properties_error[of env raw e]
  by blast

theorem get_properties_keeps_truthy_serializable_witness:
  "distinct (map fst [(''ETag'', PStr ''e1''), (''Blob'', PBytes ''xy''), (''Size'', PInt 0)]) \<and>
   get_properties example_env
     [(''ETag'', PStr ''e1''), (''Blob'', PBytes ''xy''), (''Size'', PInt 0)] =
     Inr [(''ETag'', PStr ''e1'')] \<and>
   [(''ETag'', PStr ''e1'')] =
     filter (\<lambda>kv. truthy (snd kv) \<and> json_serializable example_env (snd kv))
       [(''ETag'', PStr ''e1''), (''Blob'', PBytes ''xy''), (''Size'', PInt 0)]"
proof -
  have d: "distinct (map fst [(''ETag'', PStr ''e1''), (''Blob'', PBytes ''xy''),
                             (''Size'', PInt 0)])"
    by simp
  have r: "get_properties example_env
     [(''ETag'', PStr ''e1''), (''Blob'', PBytes ''xy''), (''Size'', PInt 0)] =
     Inr [(''ETag'', PStr ''e1'')]"
    by (simp add: get_properties_def json_dumps_def dict_set_def)
  from get_properties_keeps_truthy_serializable
         [OF d, where env = example_env and d = "[(''ETag'', PStr ''e1'')]"] r
  have "[(''ETag'', PStr ''e1'')] =
     filter (\<lambda>kv. truthy (snd kv) \<and> json_serializable example_env (snd kv))
       [(''ETag'', PStr ''e1''), (''Blob'', PBytes ''xy''), (''Size'', PInt 0)]"
    by blast
  with d r show ?thesis by blast
qed

text \<open>
  Claim C7: every record that \<^verbatim>\<open>file_to_file_data\<close> or \<^verbatim>\<open>page_to_file_data\<close> returns
  carries the key \<^verbatim>\<open>sharepoint_content_type\<close> in its \<^verbatim>\<open>additional_metadata\<close> exactly
  once, with the value \<^verbatim>\<open>document\<close> for a file and \<^verbatim>\<open>site_page\<close> for a page. The tag
  is set after the properties went through \<^verbatim>\<open>get_properties\<close>, so the filtering cannot
  remove it.
\<close>

theorem content_type_tag_carried:
  "(file_to_file_data env self client src_file = Inr fd \<longrightarrow>
      dict_get (additional_metadata fd) ''sharepoint_content_type'' = Some (PStr ''document'') \<and>
      length (filter (\<lambda>kv. fst kv = ''sharepoint_content_type'') (additional_metadata fd)) = 1)
   \<and>
   (page_to_file_data env self page = Inr pd \<longrightarrow>
      dict_get (additional_metadata pd) ''sharepoint_content_type'' = Some (PStr ''site_page'') \<and>
      length (filter (\<lambda>kv. fst kv = ''sharepoint_content_type'') (additional_metadata pd)) = 1)"
proof (intro conjI impI)
  assume a: "file_to_file_data env self client src_file = Inr fd"
  then obtain props where p: "get_properties env (file_properties src_file) = Inr props"
    and m: "additional_metadata fd =
       dict_set props ''sharepoint_content_type'' (PStr (content_type_value DOCUMENT))"
    by (rule file_to_file_data_Inr)
  from dict_set_tag[OF get_properties_distinct[OF p]] m
  show "dict_get (additional_metadata fd) ''sharepoint_content_type'' = Some (PStr ''document'')"
    and "length (filter (\<lambda>kv. fst kv = ''sharepoint_content_type'') (additional_metadata fd)) = 1"
    by simp_all
next
  assume a: "page_to_file_data env self page = Inr pd"
  then obtain props where p: "get_properties env (page_properties page) = Inr props"
    and m: "additional_metadata pd =
       dict_set props ''sharepoint_content_type'' (PStr (content_type_value SITEPAGE))"
    by (rule page_to_file_data_Inr)
  from dict_set_tag[OF get_properties_distinct[OF p]] m
  show "dict_get (additional_metadata pd) ''sharepoint_content_type'' = Some (PStr ''site_page'')"
    and "length (filter (\<lambda>kv. fst kv = ''sharepoint_content_type'') (additional_metadata pd)) = 1"
    by simp_all
qed

theorem content_type_tag_carried_witness:
  "file_to_file_data example_env example_indexer example_client (example_file ''/d/a'') =
     Inr (example_file_record ''/d/a'' ''a'') \<and>
   dict_get (additional_metadata (example_file_record ''/d/a'' ''a''))
     ''sharepoint_content_type'' = Some (PStr ''document'') \<and>
   page_to_file_data example_env example_indexer (example_page [(''Url'', PStr ''p/h'')]) =
     Inr (example_page_record ''p/h'' ''p/h'' ''p/h'') \<and>
   dict_get (additional_metadata (example_page_record ''p/h'' ''p/h'' ''p/h''))
     ''sharepoint_content_type'' = Some (PStr ''site_page'')"
proof -
  have f: "file_to_file_data example_env example_indexer example_client (example_file ''/d/a'') =
     Inr (example_file_record ''/d/a'' ''a'')"
    by (simp add: example_defs)
  have p: "page_to_file_data example_env example_indexer (example_page [(''Url'', PStr ''p/h'')]) =
     Inr (example_page_record ''p/h'' ''p/h'' ''p/h'')"
    by (simp add: example_defs)
  from content_type_tag_carried
         [where env = example_env and self = example_indexer and client = example_client
            and src_file = "example_file ''/d/a''" and fd = "example_file_record ''/d/a'' ''a''"
            and page = "example_page [(''Url'', PStr ''p/h'')]"
            and pd = "example_page_record ''p/h'' ''p/h'' ''p/h''"]
  show ?thesis using f p by simp
qed

text \<open>
  Claim C1, as it is stated, fails. \<^verbatim>\<open>str.replace\<close> removes every occurrence of the
  configured path, not its occurrence as a prefix only: with the path \<^verbatim>\<open>/d\<close>, the file
  \<^verbatim>\<open>/d/x/d/a\<close> gets the relative path \<^verbatim>\<open>x/a\<close>, where removing the prefix and the
  leading separators gives \<^verbatim>\<open>x/d/a\<close>. And \<^verbatim>\<open>page_to_file_data\<close> strips no separator:
  the page \<^verbatim>\<open>/p/h\<close> keeps its leading \<^verbatim>\<open>/\<close>.
\<close>

theorem rel_path_is_not_prefix_removal:
  "rel_path_of (file_to_file_data example_env example_indexer example_client
      (example_file ''/d/x/d/a'')) = Inr ''x/a'' \<and>
   spec_rel_path ''/d'' ''/d/x/d/a'' = ''x/d/a'' \<and>
   rel_path_of (page_to_file_data example_env example_indexer
      (example_page [(''Url'', PStr ''/p/h'')])) = Inr ''/p/h''"
  by (simp add: example_defs spec_rel_path_def rel_path_of_def)

text \<open>
  Claim C1, amended: with the path \<open>p\<close> configured, the relative path of every record
  \<^verbatim>\<open>file_to_file_data\<close> returns is the full path (the file's \<^verbatim>\<open>serverRelativeUrl\<close>) with
  every occurrence of \<open>p\<close> removed and then every leading separator removed; it is not
  empty and does not start with a separator. It is the full path with the prefix \<open>p\<close>
  and the leading separators removed, as the claim has it, whenever \<open>p\<close> is empty or is a
  prefix of the full path that does not occur in the rest of it. For the records of
  \<^verbatim>\<open>page_to_file_data\<close> the same equations hold up to leading separators.
\<close>

theorem rel_path_removes_every_occurrence:
  assumes "path (index_config self) = Some p"
  shows
   "(file_to_file_data env self client src_file = Inr fd \<longrightarrow>
       fullpath (source_identifiers fd) = serverRelativeUrl src_file \<and>
       rel_path (source_identifiers fd) =
         dropWhile (\<lambda>c. c = CHR ''/'') (py_replace (fullpath (source_identifiers fd)) p []) \<and>
       rel_path (source_identifiers fd) \<noteq> [] \<and>
       hd (rel_path (source_identifiers fd)) \<noteq> CHR ''/'' \<and>
       (p = [] \<or> (prefix p (fullpath (source_identifiers fd)) \<and>
                   \<not> contains p (drop (length p) (fullpath (source_identifiers fd))))
        \<longrightarrow> rel_path (source_identifiers fd) = spec_rel_path p (fullpath (source_identifiers fd))))
    \<and>
    (page_to_file_data env self page = Inr pd \<longrightarrow>
       dropWhile (\<lambda>c. c = CHR ''/'') (rel_path (source_identifiers pd)) =
         dropWhile (\<lambda>c. c = CHR ''/'') (py_replace (fullpath (source_identifiers pd)) p []) \<and>
       (p = [] \<or> (prefix p (fullpath (source_identifiers pd)) \<and>
                   \<not> contains p (drop (length p) (fullpath (source_identifiers pd))))
        \<longrightarrow> dropWhile (\<lambda>c. c = CHR ''/'') (rel_path (source_identifiers pd)) =
              spec_rel_path p (fullpath (source_identifiers pd))))"
proof (intro conjI impI)
  assume a: "file_to_file_data env self client src_file = Inr fd"
  then obtain replaced rp where
    r: "remove_path (serverRelativeUrl src_file) (path (index_config self)) = Inr replaced"
    and st: "strip_leading_sep replaced = Inr rp"
    and si: "source_identifiers fd =
       \<lparr>filename = name src_file, fullpath = serverRelativeUrl src_file, rel_path = rp\<rparr>"
    by (rule file_to_file_data_Inr)
  from r assms have rep: "replaced = py_replace (serverRelativeUrl src_file) p []"
    by (simp add: remove_path_def)
  from st have ne: "\<not> set replaced \<subseteq> {CHR ''/''}"
    and rp: "rp = dropWhile (\<lambda>c. c = CHR ''/'') replaced"
    by (auto simp: strip_leading_sep_eq split: if_splits)
  from ne have rpne: "rp \<noteq> []"
    unfolding rp by (auto simp: dropWhile_eq_Nil_conv)
  show "fullpath (source_identifiers fd) = serverRelativeUrl src_file"
    by (simp add: si)
  show "rel_path (source_identifiers fd) =
         dropWhile (\<lambda>c. c = CHR ''/'') (py_replace (fullpath (source_identifiers fd)) p [])"
    by (simp add: si rp rep)
  show "rel_path (source_identifiers fd) \<noteq> []"
    using rpne by (simp add: si)
  show "hd (rel_path (source_identifiers fd)) \<noteq> CHR ''/''"
    using rpne dropWhile_sep_head[of replaced] by (simp add: si rp)
  assume "p = [] \<or> (prefix p (fullpath (source_identifiers fd)) \<and>
                   \<not> contains p (drop (length p) (fullpath (source_identifiers fd))))"
  then have c: "p = [] \<or> (prefix p (serverRelativeUrl src_file) \<and>
                   \<not> contains p (drop (length p) (serverRelativeUrl src_file)))"
    by (simp add: si)
  have "prefix p (serverRelativeUrl src_file)" using c by auto
  then show "rel_path (source_identifiers fd) = spec_rel_path p (fullpath (source_identifiers fd))"
    by (simp add: si rp rep spec_rel_path_def py_replace_prefix_only[OF c])
next
  assume a: "page_to_file_data env self page = Inr pd"
  then obtain file_path rel where
    r: "remove_path file_path (path (index_config self)) = Inr rel"
    and si: "source_identifiers pd =
       \<lparr>filename = file_name page, fullpath = file_path, rel_path = rel\<rparr>"
    by (rule page_to_file_data_Inr)
  from r assms have rep: "rel = py_replace file_path p []"
    by (simp add: remove_path_def)
  show "dropWhile (\<lambda>c. c = CHR ''/'') (rel_path (source_identifiers pd)) =
         dropWhile (\<lambda>c. c = CHR ''/'') (py_replace (fullpath (source_identifiers pd)) p [])"
    by (simp add: si rep)
  assume "p = [] \<or> (prefix p (fullpath (source_identifiers pd)) \<and>
                   \<not> contains p (drop (length p) (fullpath (source_identifiers pd))))"
  then have c: "p = [] \<or> (prefix p file_path \<and> \<not> contains p (drop (length p) file_path))"
    by (simp add: si)
  have "prefix p file_path" using c by auto
  then show "dropWhile (\<lambda>c. c = CHR ''/'') (rel_path (source_identifiers pd)) =
              spec_rel_path p (fullpath (source_identifiers pd))"
    by (simp add: si rep spec_rel_path_def py_replace_prefix_only[OF c])
qed

theorem rel_path_removes_every_occurrence_witness:
  "path (index_config example_indexer) = Some ''/d'' \<and>
   file_to_file_data example_env example_indexer example_client (example_file ''/d/a'') =
     Inr (example_file_record ''/d/a'' ''a'') \<and>
   rel_path (source_identifiers (example_file_record ''/d/a'' ''a'')) =
     spec_rel_path ''/d'' (fullpath (source_identifiers (example_file_record ''/d/a'' ''a'')))"
proof -
  have p: "path (index_config example_indexer) = Some ''/d''"
    by (simp add: example_indexer_def)
  have f: "file_to_file_data example_env example_indexer example_client (example_file ''/d/a'') =
     Inr (example_file_record ''/d/a'' ''a'')"
    by (simp add: example_defs)
  have c: "prefix ''/d'' (fullpath (source_identifiers (example_file_record ''/d/a'' ''a''))) \<and>
     \<not> contains ''/d'' (drop (length ''/d'')
          (fullpath (source_identifiers (example_file_record ''/d/a'' ''a''))))"
    by (simp add: example_file_record_def)
  from rel_path_removes_every_occurrence
         [OF p, where env = example_env and client = example_client
            and src_file = "example_file ''/d/a''" and fd = "example_file_record ''/d/a'' ''a''"]
       f c
  have "rel_path (source_identifiers (example_file_record ''/d/a'' ''a'')) =
     spec_rel_path ''/d'' (fullpath (source_identifiers (example_file_record ''/d/a'' ''a'')))"
    by blast
  with p f show ?thesis by simp
qed



section \<open>Claims about the enumeration\<close>

text \<open>
  Claim C5, as it is stated, fails in both directions. The test \<^verbatim>\<open>"/Forms" in
  f.serverRelativeUrl\<close> is made on the child folders only, never on the folder the
  listing starts from: started in \<^verbatim>\<open>/d/Forms\<close>, the recursive listing returns the file
  \<^verbatim>\<open>/d/Forms/t\<close>, whose path has the reserved segment. And the test is on a substring,
  not on a segment: the child folder \<^verbatim>\<open>/d/FormsX\<close> has no reserved segment, and its
  files are not accumulated.
\<close>

theorem list_files_reserved_segment_counterexample:
  "list_files (Folder ''Forms'' ''/d/Forms'' [tree_file ''/d/Forms/t''] []) True =
     [tree_file ''/d/Forms/t''] \<and>
   has_reserved_segment ''/d/Forms'' \<and>
   has_reserved_segment (serverRelativeUrl (tree_file ''/d/Forms/t'')) \<and>
   list_files
     (Folder ''d'' ''/d'' [] [Folder ''FormsX'' ''/d/FormsX'' [tree_file ''/d/FormsX/t''] []])
     True = [] \<and>
   \<not> has_reserved_segment ''/d/FormsX''"
  by (simp add: has_reserved_segment_def tree_file_def)

text \<open>
  Claim C5, amended: without recursion \<^verbatim>\<open>list_files\<close> returns the files of the folder.
  With recursion, a file is in the returned sequence if and only if it is a file of the
  starting folder or of a folder reached from it through child folders none of which has
  the substring \<^verbatim>\<open>/Forms\<close> in its \<^verbatim>\<open>serverRelativeUrl\<close>; so every folder whose files
  are returned, other than the starting folder, has no \<^verbatim>\<open>/Forms\<close> in its
  \<^verbatim>\<open>serverRelativeUrl\<close>.
\<close>

theorem list_files_visits_children_without_Forms:
  "list_files rootf False = files rootf \<and>
   (x \<in> set (list_files rootf True) \<longleftrightarrow> (\<exists>g. visited rootf g \<and> x \<in> set (files g))) \<and>
   (visited rootf g \<longrightarrow> g = rootf \<or> \<not> contains ''/Forms'' (folder_url g))"
  using list_files_flat list_files_iff visited_url by blast

theorem list_files_visits_children_without_Forms_witness:
  "visited example_tree example_subfolder \<and>
   tree_file ''/d/s/b'' \<in> set (files example_subfolder) \<and>
   tree_file ''/d/s/b'' \<in> set (list_files example_tree True) \<and>
   \<not> contains ''/Forms'' (folder_url example_subfolder)"
proof -
  have v: "visited example_tree example_subfolder"
    by (rule visited_below[of example_subfolder])
       (simp_all add: example_tree_def example_subfolder_def visited_root)
  have f: "tree_file ''/d/s/b'' \<in> set (files example_subfolder)"
    by (simp add: example_subfolder_def)
  have n: "example_subfolder \<noteq> example_tree"
    by (simp add: example_tree_def example_subfolder_def)
  from list_files_visits_children_without_Forms
         [of example_tree "tree_file ''/d/s/b''" example_subfolder] v f n
  show ?thesis by blast
qed

text \<open>
  Claim C9: \<^verbatim>\<open>get_root\<close> changes the configuration exactly when no path is configured,
  which the code tests by truth value (\<^verbatim>\<open>if path := self.index_config.path\<close>: the path
  is \<^verbatim>\<open>None\<close> or empty). With a path configured it returns the handle of that folder
  and leaves the indexer as it was. With none, and the root folder of the default
  document library fetched, it returns that folder and the only change to the indexer is
  that \<^verbatim>\<open>index_config.path\<close> now holds the name of the folder; when fetching the folder
  fails, the failure is raised.
\<close>

theorem get_root_persists_default_path:
  "(path (index_config self) = Some p \<and> p \<noteq> [] \<longrightarrow>
      get_root self client = Inr (folder_by_path client p, self))
   \<and>
   ((path (index_config self) = None \<or> path (index_config self) = Some []) \<longrightarrow>
      (default_library_root client = Inr root_folder \<longrightarrow>
         get_root self client =
           Inr (Inr root_folder,
                self\<lparr>index_config :=
                  (index_config self)\<lparr>path := Some (folder_name root_folder)\<rparr>\<rparr>)) \<and>
      (default_library_root client = Inl e \<longrightarrow> get_root self client = Inl e))"
  by (auto simp: get_root_def default_root_def bind_err_def)

theorem get_root_persists_default_path_witness:
  "path (index_config example_indexer) = Some ''/d'' \<and>
   get_root example_indexer example_client =
     Inr (folder_by_path example_client ''/d'', example_indexer) \<and>
   path (index_config (example_indexer\<lparr>index_config :=
           (index_config example_indexer)\<lparr>path := None\<rparr>\<rparr>)) = None \<and>
   default_library_root example_client = Inr (Folder ''Docs'' ''/Docs'' [] []) \<and>
   get_root (example_indexer\<lparr>index_config := (index_config example_indexer)\<lparr>path := None\<rparr>\<rparr>)
       example_client =
     Inr (Inr (Folder ''Docs'' ''/Docs'' [] []),
          example_indexer\<lparr>index_config :=
            (index_config example_indexer)\<lparr>path := Some ''Docs''\<rparr>\<rparr>)"
proof -
  have a: "path (index_config example_indexer) = Some ''/d'' \<and> ''/d'' \<noteq> []"
    by (simp add: example_indexer_def)
  have b: "path (index_config (example_indexer\<lparr>index_config :=
           (index_config example_indexer)\<lparr>path := None\<rparr>\<rparr>)) = None"
    by simp
  have c: "default_library_root example_client = Inr (Folder ''Docs'' ''/Docs'' [] [])"
    by (simp add: example_client_def)
  from get_root_persists_default_path
         [where self = example_indexer and p = "''/d''" and client = example_client] a
  have 1: "get_root example_indexer example_client =
     Inr (folder_by_path example_client ''/d'', example_indexer)"
    by blast
  from get_root_persists_default_path
         [where self = "example_indexer\<lparr>index_config :=
                          (index_config example_indexer)\<lparr>path := None\<rparr>\<rparr>"
            and client = example_client and root_folder = "Folder ''Docs'' ''/Docs'' [] []"] b c
  have 2: "get_root (example_indexer\<lparr>index_config :=
               (index_config example_indexer)\<lparr>path := None\<rparr>\<rparr>) example_client =
     Inr (Inr (Folder ''Docs'' ''/Docs'' [] []),
          example_indexer\<lparr>index_config :=
            (index_config example_indexer)\<lparr>path := Some ''Docs''\<rparr>\<rparr>)"
    by simp
  from a b c 1 2 show ?thesis by simp
qed

text \<open>
  Claim C2: let \<open>batch\<close> be the records \<^verbatim>\<open>file_to_file_data\<close> made of a list of files,
  and let the permissions client be configured and the drive items of the site be
  \<open>existing_items\<close>. When \<^verbatim>\<open>enrich_permissions_on_files\<close> returns, a record has
  \<^verbatim>\<open>permissions_data\<close> set if and only if it carries an \<^verbatim>\<open>ETag\<close> and exactly one drive
  item has that etag; every other record (no \<^verbatim>\<open>ETag\<close>, no item or several items with
  it) is left as it was; and the log holds one warning for each record with several
  matches and nothing else. When it raises, the exception is the failure to fetch the
  permissions of an item that is the only match of a record: a record with no match,
  several matches or no \<^verbatim>\<open>ETag\<close> causes no error.
\<close>

theorem enrichment_sets_permissions_on_unique_match:
  assumes batch: "map_err (file_to_file_data env self client) fs = Inr batch"
    and pc: "permissions_config (connection_config self) = Some pcfg"
    and st: "site_by_url (graph srv) site_url = Inr st"
    and items: "get_permissions_items st = Inr existing_items"
  shows
   "(enrich_permissions_on_files srv self batch site_url = Inr (batch', ws) \<longrightarrow>
       list_all2 (\<lambda>fd fd'.
          (permissions_data (metadata fd') \<noteq> None \<longleftrightarrow> unique_match existing_items fd) \<and>
          (\<not> unique_match existing_items fd \<longrightarrow> fd' = fd)) batch batch' \<and>
       ws = map (multi_match_warning existing_items) (filter (multi_match existing_items) batch))
    \<and>
    (enrich_permissions_on_files srv self batch site_url = Inl e \<longrightarrow>
       (\<exists>fd\<in>set batch. \<exists>x\<in>set existing_items.
           unique_match existing_items fd \<and> item_permissions x = Inl e))"
proof -
  have eq: "enrich_permissions_on_files srv self batch site_url = enrich_loop existing_items batch"
    using pc st items by (simp add: enrich_permissions_on_files_def get_permissions_client_def)
  note en = file_records_enrichable[OF batch]
  show ?thesis
    unfolding eq using enrich_loop_result[OF en] enrich_loop_error_unique[OF en] by blast
qed

theorem enrichment_sets_permissions_on_unique_match_witness:
  "map_err (file_to_file_data example_env example_permissions_indexer example_site)
     [example_file ''/d/a''] = Inr [example_file_record ''/d/a'' ''a''] \<and>
   enrich_permissions_on_files example_services example_permissions_indexer
     [example_file_record ''/d/a'' ''a''] ''https://t'' = Inr ([example_enriched_record], []) \<and>
   unique_match example_items (example_file_record ''/d/a'' ''a'') \<and>
   permissions_data (metadata example_enriched_record) \<noteq> None"
proof -
  have b: "map_err (file_to_file_data example_env example_permissions_indexer example_site)
     [example_file ''/d/a''] = Inr [example_file_record ''/d/a'' ''a'']"
    by (simp add: example_defs example_permissions_indexer_def example_site_def)
  have pc: "permissions_config (connection_config example_permissions_indexer) =
     Some example_permissions_config"
    by (simp add: example_permissions_indexer_def)
  have st: "site_by_url (graph example_services) ''https://t'' =
     Inr \<lparr>drives = Inr [\<lparr>root_children = Inr example_items\<rparr>]\<rparr>"
    by (simp add: example_services_def)
  have it: "get_permissions_items \<lparr>drives = Inr [\<lparr>root_children = Inr example_items\<rparr>]\<rparr> =
     Inr example_items"
    by (simp add: get_permissions_items_def)
  have um: "unique_match example_items (example_file_record ''/d/a'' ''a'')"
    by (simp add: unique_match_def example_file_record_def dict_get_def matching_def
          example_items_def example_item_def etag_eq_def)
  have loop: "enrich_permissions_on_files example_services example_permissions_indexer
     [example_file_record ''/d/a'' ''a''] ''https://t'' =
     enrich_loop example_items [example_file_record ''/d/a'' ''a'']"
    by (simp add: enrich_permissions_on_files_def get_permissions_client_def pc st it)
  have run: "enrich_permissions_on_files example_services example_permissions_indexer
     [example_file_record ''/d/a'' ''a''] ''https://t'' = Inr ([example_enriched_record], [])"
    unfolding loop
    by (simp add: enrich_one_def get_or_none_def dict_get_def matching_def example_items_def
          example_item_def etag_eq_def example_enriched_record_def example_file_record_def
          Let_def)
  from enrichment_sets_permissions_on_unique_match
         [OF b pc st it, where batch' = "[example_enriched_record]" and ws = "[]"] run
  have "list_all2 (\<lambda>fd fd'.
          (permissions_data (metadata fd') \<noteq> None \<longleftrightarrow> unique_match example_items fd) \<and>
          (\<not> unique_match example_items fd \<longrightarrow> fd' = fd))
        [example_file_record ''/d/a'' ''a''] [example_enriched_record]"
    by blast
  with um have "permissions_data (metadata example_enriched_record) \<noteq> None"
    by simp
  with b run um show ?thesis by simp
qed

text \<open>
  Claim C6: with the client obtained and the root resolved, \<^verbatim>\<open>run\<close> yields the file
  records and then the page records. With \<^verbatim>\<open>omit_files\<close> set it yields the page records
  only; with \<^verbatim>\<open>omit_pages\<close> set there are no page records. The file records are made
  for every listed file before any of them is yielded, and when permissions are
  processed the enrichment runs on that whole list first: what is yielded is the list
  the enrichment returns, and when the listing, a mapping or the enrichment raises,
  nothing has been yielded. The page records are the pages mapped in order, each with
  \<^verbatim>\<open>site_url\<close> added to its record locator.
\<close>

theorem indexer_run_yields_files_then_pages:
  assumes c: "sharepoint srv = Inr client"
    and g: "get_root self0 client = Inr (root_folder, self)"
  shows
   "(omit_files (index_config self) \<longrightarrow>
       yielded (indexer_run srv env self0) = fst (run_pages env self client) \<and>
       raised (indexer_run srv env self0) = snd (run_pages env self client))
    \<and>
    (\<not> omit_files (index_config self) \<and>
     collect_file_data srv env self client root_folder = Inl e \<longrightarrow>
       yielded (indexer_run srv env self0) = [] \<and> raised (indexer_run srv env self0) = Some e)
    \<and>
    (\<not> omit_files (index_config self) \<and> root_folder = Inr rf \<and>
     map_err (file_to_file_data env self client)
       (list_files rf (recursive (index_config self))) = Inr batch \<longrightarrow>
       (process_permissions self = Inr False \<longrightarrow>
          yielded (indexer_run srv env self0) = batch @ fst (run_pages env self client) \<and>
          raised (indexer_run srv env self0) = snd (run_pages env self client)) \<and>
       (process_permissions self = Inr True \<and> web_url client = Inr u \<longrightarrow>
          (enrich_permissions_on_files srv self batch u = Inr (enriched, ws) \<longrightarrow>
             yielded (indexer_run srv env self0) = enriched @ fst (run_pages env self client) \<and>
             logged (indexer_run srv env self0) = ws \<and>
             raised (indexer_run srv env self0) = snd (run_pages env self client)) \<and>
          (enrich_permissions_on_files srv self batch u = Inl e \<longrightarrow>
             yielded (indexer_run srv env self0) = [] \<and>
             raised (indexer_run srv env self0) = Some e)))
    \<and>
    (omit_pages (index_config self) \<longrightarrow> run_pages env self client = ([], None))
    \<and>
    (\<not> omit_pages (index_config self) \<and> site_pages client = Inr pages \<and>
     map_err (page_to_file_data env self) pages = Inr pds \<longrightarrow>
       run_pages env self client = (map (with_site_url client) pds, None))"
proof -
  have run: "indexer_run srv env self0 =
     (if \<not> omit_files (index_config self)
      then (case collect_file_data srv env self client root_folder of
              Inl e \<Rightarrow> \<lparr>yielded = [], logged = [], raised = Some e\<rparr>
            | Inr (file_data, ws) \<Rightarrow>
                \<lparr>yielded = file_data @ fst (run_pages env self client), logged = ws,
                 raised = snd (run_pages env self client)\<rparr>)
      else \<lparr>yielded = fst (run_pages env self client), logged = [],
            raised = snd (run_pages env self client)\<rparr>)"
    by (simp add: indexer_run_def c g Let_def split: sum.splits prod.splits)
  have 1: "omit_files (index_config self) \<longrightarrow>
       yielded (indexer_run srv env self0) = fst (run_pages env self client) \<and>
       raised (indexer_run srv env self0) = snd (run_pages env self client)"
    by (simp add: run)
  have 2: "\<not> omit_files (index_config self) \<and>
     collect_file_data srv env self client root_folder = Inl e \<longrightarrow>
       yielded (indexer_run srv env self0) = [] \<and> raised (indexer_run srv env self0) = Some e"
    by (simp add: run)
  have 3: "\<not> omit_files (index_config self) \<and> root_folder = Inr rf \<and>
     map_err (file_to_file_data env self client)
       (list_files rf (recursive (index_config self))) = Inr batch \<longrightarrow>
       (process_permissions self = Inr False \<longrightarrow>
          yielded (indexer_run srv env self0) = batch @ fst (run_pages env self client) \<and>
          raised (indexer_run srv env self0) = snd (run_pages env self client)) \<and>
       (process_permissions self = Inr True \<and> web_url client = Inr u \<longrightarrow>
          (enrich_permissions_on_files srv self batch u = Inr (enriched, ws) \<longrightarrow>
             yielded (indexer_run srv env self0) = enriched @ fst (run_pages env self client) \<and>
             logged (indexer_run srv env self0) = ws \<and>
             raised (indexer_run srv env self0) = snd (run_pages env self client)) \<and>
          (enrich_permissions_on_files srv self batch u = Inl e \<longrightarrow>
             yielded (indexer_run srv env self0) = [] \<and>
             raised (indexer_run srv env self0) = Some e))"
    by (simp add: run collect_file_data_def Let_def)
  have 4: "omit_pages (index_config self) \<longrightarrow> run_pages env self client = ([], None)"
    by (simp add: run_pages_def)
  have 5: "\<not> omit_pages (index_config self) \<and> site_pages client = Inr pages \<and>
     map_err (page_to_file_data env self) pages = Inr pds \<longrightarrow>
       run_pages env self client = (map (with_site_url client) pds, None)"
    by (simp add: run_pages_def yield_pages_all)
  from 1 2 3 4 5 show ?thesis by blast
qed

theorem indexer_run_yields_files_then_pages_witness:
  "sharepoint example_services = Inr example_site \<and>
   get_root example_permissions_indexer example_site =
     Inr (Inr (Folder ''d'' ''/d'' [example_file ''/d/a''] []), example_permissions_indexer) \<and>
   process_permissions example_permissions_indexer = Inr True \<and>
   yielded (indexer_run example_services example_env example_permissions_indexer) =
     [example_enriched_record,
      with_site_url example_site (example_page_record ''p/h'' ''p/h'' ''p/h'')] \<and>
   raised (indexer_run example_services example_env example_permissions_indexer) = None"
proof -
  have c: "sharepoint example_services = Inr example_site"
    by (simp add: example_services_def)
  have g: "get_root example_permissions_indexer example_site =
     Inr (Inr (Folder ''d'' ''/d'' [example_file ''/d/a''] []), example_permissions_indexer)"
    by (simp add: get_root_def example_permissions_indexer_def example_indexer_def
          example_site_def)
  have o: "\<not> omit_files (index_config example_permissions_indexer) \<and>
           \<not> omit_pages (index_config example_permissions_indexer)"
    by (simp add: example_permissions_indexer_def example_indexer_def)
  have b: "map_err (file_to_file_data example_env example_permissions_indexer example_site)
     (list_files (Folder ''d'' ''/d'' [example_file ''/d/a''] [])
        (recursive (index_config example_permissions_indexer))) =
     Inr [example_file_record ''/d/a'' ''a'']"
    by (simp add: example_defs example_permissions_indexer_def example_site_def)
  have pp: "process_permissions example_permissions_indexer = Inr True"
    by (simp add: process_permissions_def example_permissions_indexer_def
          example_permissions_config_def opt_truthy_def)
  have u: "web_url example_site = Inr ''https://t''"
    by (simp add: example_site_def)
  have pc: "permissions_config (connection_config example_permissions_indexer) =
     Some example_permissions_config"
    by (simp add: example_permissions_indexer_def)
  have st: "site_by_url (graph example_services) ''https://t'' =
     Inr \<lparr>drives = Inr [\<lparr>root_children = Inr example_items\<rparr>]\<rparr>"
    by (simp add: example_services_def)
  have it: "get_permissions_items \<lparr>drives = Inr [\<lparr>root_children = Inr example_items\<rparr>]\<rparr> =
     Inr example_items"
    by (simp add: get_permissions_items_def)
  have loop: "enrich_permissions_on_files example_services example_permissions_indexer
     [example_file_record ''/d/a'' ''a''] ''https://t'' =
     enrich_loop example_items [example_file_record ''/d/a'' ''a'']"
    by (simp add: enrich_permissions_on_files_def get_permissions_client_def pc st it)
  have en: "enrich_permissions_on_files example_services example_permissions_indexer
     [example_file_record ''/d/a'' ''a''] ''https://t'' = Inr ([example_enriched_record], [])"
    unfolding loop
    by (simp add: enrich_one_def get_or_none_def dict_get_def matching_def example_items_def
          example_item_def etag_eq_def example_enriched_record_def example_file_record_def
          Let_def)
  have sp: "site_pages example_site = Inr [example_page [(''Url'', PStr ''p/h'')]]"
    by (simp add: example_site_def)
  have pg: "map_err (page_to_file_data example_env example_permissions_indexer)
     [example_page [(''Url'', PStr ''p/h'')]] = Inr [example_page_record ''p/h'' ''p/h'' ''p/h'']"
    by (simp add: example_defs example_permissions_indexer_def)
  note t = indexer_run_yields_files_then_pages
         [OF c g, where env = example_env
            and rf = "Folder ''d'' ''/d'' [example_file ''/d/a''] []"
            and batch = "[example_file_record ''/d/a'' ''a'']"
            and u = "''https://t''" and enriched = "[example_enriched_record]" and ws = "[]"
            and pages = "[example_page [(''Url'', PStr ''p/h'')]]"
            and pds = "[example_page_record ''p/h'' ''p/h'' ''p/h'']"]
  from t o sp pg have rp: "run_pages example_env example_permissions_indexer example_site =
     ([with_site_url example_site (example_page_record ''p/h'' ''p/h'' ''p/h'')], None)"
    by simp
  from t o b pp u en
  have "yielded (indexer_run example_services example_env example_permissions_indexer) =
          [example_enriched_record] @
          fst (run_pages example_env example_permissions_indexer example_site) \<and>
        raised (indexer_run example_services example_env example_permissions_indexer) =
          snd (run_pages example_env example_permissions_indexer example_site)"
    by blast
  with rp c g pp show ?thesis by simp
qed

section \<open>Claims about the downloader\<close>

text \<open>
  Claim C8: for a record tagged \<^verbatim>\<open>site_page\<close>, every path \<^verbatim>\<open>get_download_path\<close>
  returns has the suffix \<^verbatim>\<open>.html\<close>, whatever the name the host computed, and it
  returns one whenever the host's path has a name (\<^verbatim>\<open>with_suffix\<close> raises on a path
  with an empty name). For a record with any other tag, or none, it returns the host's
  path as it is.
\<close>

theorem site_page_download_path_is_html:
  "(dict_get (additional_metadata file_data) ''sharepoint_content_type'' = Some (PStr ''site_page'') \<longrightarrow>
      (get_download_path self file_data = Inr q \<longrightarrow> path_suffix q = ''.html'') \<and>
      (path_name (host_download_path self file_data) \<noteq> [] \<longrightarrow>
         (\<exists>q'. get_download_path self file_data = Inr q')))
   \<and>
   (dict_get (additional_metadata file_data) ''sharepoint_content_type'' \<noteq> Some (PStr ''site_page'') \<longrightarrow>
      get_download_path self file_data = Inr (host_download_path self file_data))"
  using with_suffix_html[of "host_download_path self file_data" q]
        with_suffix_html_total[of "host_download_path self file_data"]
  by (auto simp: get_download_path_def Let_def)


theorem site_page_download_path_is_html_witness:
  "dict_get (additional_metadata (example_page_record ''p/h'' ''p/h'' ''h.aspx''))
     ''sharepoint_content_type'' = Some (PStr ''site_page'') \<and>
   get_download_path example_downloader (example_page_record ''p/h'' ''p/h'' ''h.aspx'') =
     Inr \<lparr>path_anchor = ''/'', path_parts = [''out'', ''h.html'']\<rparr> \<and>
   path_suffix \<lparr>path_anchor = ''/'', path_parts = [''out'', ''h.html'']\<rparr> = ''.html'' \<and>
   get_download_path example_downloader (example_file_record ''/d/a.docx'' ''a.docx'') =
     Inr (host_download_path example_downloader (example_file_record ''/d/a.docx'' ''a.docx''))"
proof -
  have tp: "dict_get (additional_metadata (example_page_record ''p/h'' ''p/h'' ''h.aspx''))
     ''sharepoint_content_type'' = Some (PStr ''site_page'')"
    by (simp add: example_page_record_def dict_get_def)
  have tf: "dict_get (additional_metadata (example_file_record ''/d/a.docx'' ''a.docx''))
     ''sharepoint_content_type'' \<noteq> Some (PStr ''site_page'')"
    by (simp add: example_file_record_def dict_get_def)
  have p: "get_download_path example_downloader (example_page_record ''p/h'' ''p/h'' ''h.aspx'') =
     Inr \<lparr>path_anchor = ''/'', path_parts = [''out'', ''h.html'']\<rparr>"
    by (simp add: get_download_path_def example_downloader_def example_page_record_def
          dict_get_def with_suffix_def path_name_def name_suffix_def Let_def)
  from site_page_download_path_is_html
         [where file_data = "example_page_record ''p/h'' ''p/h'' ''h.aspx''"
            and self = example_downloader
            and q = "\<lparr>path_anchor = ''/'', path_parts = [''out'', ''h.html'']\<rparr>"] tp p
  have s: "path_suffix \<lparr>path_anchor = ''/'', path_parts = [''out'', ''h.html'']\<rparr> = ''.html''"
    by blast
  from site_page_download_path_is_html
         [where file_data = "example_file_record ''/d/a.docx'' ''a.docx''"
            and self = example_downloader] tf
  have f: "get_download_path example_downloader (example_file_record ''/d/a.docx'' ''a.docx'') =
     Inr (host_download_path example_downloader (example_file_record ''/d/a.docx'' ''a.docx''))"
    by blast
  from tp p s f show ?thesis by simp
qed

text \<open>
  Claim C4, as it is stated, fails in its "only if": a record tagged \<^verbatim>\<open>site_page\<close>
  whose \<^verbatim>\<open>CanvasContent1\<close> is not JSON makes \<^verbatim>\<open>json.loads\<close> raise
  \<^verbatim>\<open>JSONDecodeError\<close>, which is a \<^verbatim>\<open>ValueError\<close>, out of \<^verbatim>\<open>run\<close>, with a tag that is
  present and recognised.
\<close>

theorem downloader_run_ValueError_with_recognised_tag:
  "get_or_none (additional_metadata (example_canvas_record ''site_page'' ''<p>hi</p>''))
     ''sharepoint_content_type'' = PStr (content_type_value SITEPAGE) \<and>
   downloader_run example_services example_env example_fs example_downloader
     (example_canvas_record ''site_page'' ''<p>hi</p>'') = (Inl JSONDecodeError, []) \<and>
   is_ValueError JSONDecodeError"
  by (simp add: run_defs)

text \<open>
  Claim C4, amended: \<^verbatim>\<open>run\<close> raises its \<^verbatim>\<open>ValueError\<close> "Missing
  sharepoint_content_type metadata" when the tag is missing or falsy, and its
  \<^verbatim>\<open>ValueError\<close> "content type not recognized" when the tag is any other value than
  \<^verbatim>\<open>document\<close> and \<^verbatim>\<open>site_page\<close> (the reserved \<^verbatim>\<open>list\<close> among them), in both cases
  before any file I/O. For the tags \<^verbatim>\<open>document\<close> and \<^verbatim>\<open>site_page\<close> the outcome of
  \<^verbatim>\<open>run\<close> is that of \<^verbatim>\<open>get_document\<close> and of \<^verbatim>\<open>get_site_page\<close>, whose own exceptions
  propagate.
\<close>

theorem downloader_run_dispatch:
  "(\<not> truthy (get_or_none (additional_metadata file_data) ''sharepoint_content_type'') \<longrightarrow>
      downloader_run srv env fs self file_data =
        (Inl (ValueError ''Missing sharepoint_content_type metadata''), []))
   \<and>
   (truthy (get_or_none (additional_metadata file_data) ''sharepoint_content_type'') \<and>
    get_or_none (additional_metadata file_data) ''sharepoint_content_type'' \<noteq> PStr ''document'' \<and>
    get_or_none (additional_metadata file_data) ''sharepoint_content_type'' \<noteq> PStr ''site_page'' \<longrightarrow>
      downloader_run srv env fs self file_data =
        (Inl (ValueError ''content type not recognized''), []))
   \<and>
   (get_or_none (additional_metadata file_data) ''sharepoint_content_type'' = PStr ''document'' \<longrightarrow>
      downloader_run srv env fs self file_data = get_document srv fs self file_data)
   \<and>
   (get_or_none (additional_metadata file_data) ''sharepoint_content_type'' = PStr ''site_page'' \<longrightarrow>
      downloader_run srv env fs self file_data = get_site_page env fs self file_data)"
  by (simp add: downloader_run_def)

theorem downloader_run_dispatch_witness:
  "\<not> truthy (get_or_none (additional_metadata
        ((example_file_record ''/d/a'' ''a'')\<lparr>additional_metadata := []\<rparr>))
        ''sharepoint_content_type'') \<and>
   downloader_run example_services example_env example_fs example_downloader
     ((example_file_record ''/d/a'' ''a'')\<lparr>additional_metadata := []\<rparr>) =
     (Inl (ValueError ''Missing sharepoint_content_type metadata''), []) \<and>
   get_or_none (additional_metadata (example_canvas_record ''list'' ''[]''))
     ''sharepoint_content_type'' = PStr (content_type_value LIST) \<and>
   downloader_run example_services example_env example_fs example_downloader
     (example_canvas_record ''list'' ''[]'') =
     (Inl (ValueError ''content type not recognized''), [])"
proof -
  have a: "\<not> truthy (get_or_none (additional_metadata
        ((example_file_record ''/d/a'' ''a'')\<lparr>additional_metadata := []\<rparr>))
        ''sharepoint_content_type'')"
    by (simp add: get_or_none_def dict_get_def)
  have b: "get_or_none (additional_metadata (example_canvas_record ''list'' ''[]''))
     ''sharepoint_content_type'' = PStr ''list''"
    by (simp add: get_or_none_def dict_get_def example_canvas_record_def)
  from downloader_run_dispatch
         [where file_data = "(example_file_record ''/d/a'' ''a'')\<lparr>additional_metadata := []\<rparr>"
            and srv = example_services and env = example_env and fs = example_fs
            and self = example_downloader] a
  have 1: "downloader_run example_services example_env example_fs example_downloader
     ((example_file_record ''/d/a'' ''a'')\<lparr>additional_metadata := []\<rparr>) =
     (Inl (ValueError ''Missing sharepoint_content_type metadata''), [])"
    by blast
  from downloader_run_dispatch
         [where file_data = "example_canvas_record ''list'' ''[]''"
            and srv = example_services and env = example_env and fs = example_fs
            and self = example_downloader] b
  have 2: "downloader_run example_services example_env example_fs example_downloader
     (example_canvas_record ''list'' ''[]'') =
     (Inl (ValueError ''content type not recognized''), [])"
    by simp
  from a b 1 2 show ?thesis by simp
qed

end
